theory Spec2Isabelle
  imports Complex_Main "HOL-Library.Sublist"
begin

section \<open>Errors and the key/value store\<close>

text \<open>
  A JavaScript exception (or a rejected promise) is a value carrying its message; every
  route handler turns it into a 500 response with \<open>error.message\<close> as the body.
\<close>

datatype error = Error string

text \<open>
  The store the handlers reach through \<open>req.redis\<close>. An entry is a key, its string value and
  the absolute time (milliseconds, as \<open>Date.now()\<close>) at which it expires: it is visible
  strictly before that time. \<open>unavailable\<close> holds the message with which every command is
  rejected while the server cannot be reached. A command completes within the resolution of
  the clock.
\<close>

record redis_store =
  entries :: "(string \<times> string \<times> int) list"
  unavailable :: "string option"

definition live :: "int \<Rightarrow> redis_store \<Rightarrow> string \<Rightarrow> string option" where
  "live t r k =
     (case map_of (entries r) k of
        None \<Rightarrow> None
      | Some (v, expiry) \<Rightarrow> if t < expiry then Some v else None)"

text \<open>The glob-style patterns of the \<open>KEYS\<close> command: \<open>*\<close>, \<open>?\<close>, \<open>[...]\<close> and the escape.\<close>

abbreviation backslash :: char where
  "backslash \<equiv> CHR 0x5C"

fun class_scan :: "string \<Rightarrow> char \<Rightarrow> bool \<Rightarrow> bool \<times> nat" where
  "class_scan [] c m = (m, 0)"
| "class_scan [x] c m = (if x = CHR '']'' then (m, 1) else (m \<or> x = c, 1))"
| "class_scan (x # y # zs) c m =
     (if x = CHR '']'' then (m, 1)
      else if x = backslash then
        (case class_scan zs c (m \<or> y = c) of (b, n) \<Rightarrow> (b, n + 2))
      else if y = CHR ''-'' then
        (case zs of
           [] \<Rightarrow> (case class_scan (y # zs) c (m \<or> x = c) of (b, n) \<Rightarrow> (b, n + 1))
         | e # rest \<Rightarrow>
             (case class_scan rest c
                     (m \<or> (min (of_char x) (of_char e) \<le> (of_char c :: nat)
                          \<and> (of_char c :: nat) \<le> max (of_char x) (of_char e)))
              of (b, n) \<Rightarrow> (b, n + 3)))
      else (case class_scan (y # zs) c (m \<or> x = c) of (b, n) \<Rightarrow> (b, n + 1)))"

fun glob :: "string \<Rightarrow> string \<Rightarrow> bool" where
  "glob [] s = (s = [])"
| "glob (p # ps) [] = (p = CHR ''*'' \<and> glob ps [])"
| "glob (p # ps) (c # cs) =
     (if p = CHR ''*'' then glob ps (c # cs) \<or> glob (p # ps) cs
      else if p = CHR ''?'' then glob ps cs
      else if p = CHR ''['' then
        (case ps of
           [] \<Rightarrow> False
         | q # body \<Rightarrow>
             if q = CHR ''^''
             then \<not> fst (class_scan body c False)
                  \<and> glob (drop (snd (class_scan body c False)) body) cs
             else fst (class_scan ps c False)
                  \<and> glob (drop (snd (class_scan ps c False)) ps) cs)
      else if p = backslash then
        (case ps of
           [] \<Rightarrow> c = p \<and> glob [] cs
         | q # qs \<Rightarrow> c = q \<and> glob qs cs)
      else c = p \<and> glob ps cs)"

text \<open>
  The four commands the handlers use. \<open>GET\<close> and \<open>KEYS\<close> see the entries that have not
  expired at time \<open>t\<close>; \<open>SETEX\<close> replaces the entry of the key and makes it expire
  \<open>seconds\<close> later; \<open>DEL\<close> needs at least one key.
\<close>

definition redis_get :: "int \<Rightarrow> string \<Rightarrow> redis_store \<Rightarrow> error + string option" where
  "redis_get t k r =
     (case unavailable r of
        Some m \<Rightarrow> Inl (Error m)
      | None \<Rightarrow> Inr (live t r k))"

definition redis_setex ::
  "int \<Rightarrow> string \<Rightarrow> int \<Rightarrow> string \<Rightarrow> redis_store \<Rightarrow> error + redis_store" where
  "redis_setex t k seconds v r =
     (case unavailable r of
        Some m \<Rightarrow> Inl (Error m)
      | None \<Rightarrow>
          if seconds \<le> 0 then Inl (Error ''ERR invalid expire time in setex'')
          else Inr (r\<lparr>entries :=
                       (k, v, t + seconds * 1000) # filter (\<lambda>e. fst e \<noteq> k) (entries r)\<rparr>))"

definition redis_keys :: "int \<Rightarrow> string \<Rightarrow> redis_store \<Rightarrow> error + string list" where
  "redis_keys t pattern r =
     (case unavailable r of
        Some m \<Rightarrow> Inl (Error m)
      | None \<Rightarrow>
          Inr (filter (\<lambda>k. live t r k \<noteq> None \<and> glob pattern k)
                 (remdups (map fst (entries r)))))"

definition redis_del :: "string list \<Rightarrow> redis_store \<Rightarrow> error + redis_store" where
  "redis_del ks r =
     (case unavailable r of
        Some m \<Rightarrow> Inl (Error m)
      | None \<Rightarrow>
          if ks = [] then Inl (Error ''ERR wrong number of arguments for del'')
          else Inr (r\<lparr>entries := filter (\<lambda>e. fst e \<notin> set ks) (entries r)\<rparr>))"

section \<open>The JavaScript built-ins the handlers call\<close>

text \<open>
  Numbers are modelled exactly (integers and rationals) where JavaScript has doubles:
  the model agrees with the program on integers below \<open>2^53\<close>. Strings are byte strings,
  and the white space that \<open>parseInt\<close> and \<open>parseFloat\<close> skip is the ASCII white space.
\<close>

definition is_space :: "char \<Rightarrow> bool" where
  "is_space c = (c \<in> set [CHR '' '', CHR 0x09, CHR 0x0A, CHR 0x0B, CHR 0x0C, CHR 0x0D])"

definition digit_of :: "char \<Rightarrow> nat option" where
  "digit_of c =
     (let n = (of_char c :: nat)
      in if 48 \<le> n \<and> n \<le> 57 then Some (n - 48)
         else if 97 \<le> n \<and> n \<le> 102 then Some (n - 87)
         else if 65 \<le> n \<and> n \<le> 70 then Some (n - 55)
         else None)"

definition in_radix :: "nat \<Rightarrow> char \<Rightarrow> bool" where
  "in_radix r c = (case digit_of c of None \<Rightarrow> False | Some d \<Rightarrow> d < r)"

definition digits_value :: "nat \<Rightarrow> string \<Rightarrow> nat" where
  "digits_value r ds =
     foldl (\<lambda>a c. a * r + (case digit_of c of None \<Rightarrow> 0 | Some d \<Rightarrow> d)) 0 ds"

text \<open>\<open>parseInt(s)\<close> without a radix; \<open>None\<close> is \<open>NaN\<close>.\<close>

definition parseInt :: "string \<Rightarrow> int option" where
  "parseInt s =
     (let s1 = dropWhile is_space s;
          neg = (case s1 of [] \<Rightarrow> False | c # _ \<Rightarrow> c = CHR ''-'');
          s2 = (case s1 of [] \<Rightarrow> [] | c # cs \<Rightarrow> if c = CHR ''-'' \<or> c = CHR ''+'' then cs else s1);
          hex = (case s2 of a # b # _ \<Rightarrow> a = CHR ''0'' \<and> (b = CHR ''x'' \<or> b = CHR ''X'') | _ \<Rightarrow> False);
          radix = (if hex then 16 else 10);
          ds = takeWhile (in_radix radix) (if hex then drop 2 s2 else s2)
      in if ds = [] then None
         else Some ((if neg then - 1 else 1) * int (digits_value radix ds)))"

text \<open>\<open>parseInt\<close> of a query parameter that may be missing: \<open>undefined\<close> reads as the text "undefined".\<close>

definition parseInt_param :: "string option \<Rightarrow> int option" where
  "parseInt_param p = (case p of None \<Rightarrow> parseInt ''undefined'' | Some s \<Rightarrow> parseInt s)"

text \<open>\<open>x || d\<close> on a number: \<open>NaN\<close> and \<open>0\<close> are falsy.\<close>

definition num_or :: "int option \<Rightarrow> int \<Rightarrow> int" where
  "num_or x d = (case x of None \<Rightarrow> d | Some n \<Rightarrow> if n = 0 then d else n)"

text \<open>\<open>x || d\<close> on a string that may be missing: \<open>undefined\<close> and the empty string are falsy.\<close>

definition str_or :: "string option \<Rightarrow> string \<Rightarrow> string" where
  "str_or x d = (case x of None \<Rightarrow> d | Some s \<Rightarrow> if s = [] then d else s)"

definition truthy :: "string option \<Rightarrow> bool" where
  "truthy x = (case x of None \<Rightarrow> False | Some s \<Rightarrow> s \<noteq> [])"

definition digit_char :: "nat \<Rightarrow> char" where
  "digit_char d =
     (if d = 0 then CHR ''0'' else if d = 1 then CHR ''1'' else if d = 2 then CHR ''2''
      else if d = 3 then CHR ''3'' else if d = 4 then CHR ''4'' else if d = 5 then CHR ''5''
      else if d = 6 then CHR ''6'' else if d = 7 then CHR ''7'' else if d = 8 then CHR ''8''
      else CHR ''9'')"

fun show_nat :: "nat \<Rightarrow> string" where
  "show_nat n =
     (if n < 10 then [digit_char n]
      else show_nat (n div 10) @ [digit_char (n mod 10)])"

text \<open>A number in a template string, for the integers \<open>parseInt\<close> yields.\<close>

definition show_int :: "int \<Rightarrow> string" where
  "show_int i = (if i < 0 then CHR ''-'' # show_nat (nat (- i)) else show_nat (nat i))"

text \<open>\<open>parseFloat(s)\<close>: the longest prefix that is a decimal literal.\<close>

datatype jsnum = NaN | Infinity bool | Num rat

definition is_dec :: "char \<Rightarrow> bool" where
  "is_dec c = in_radix 10 c"

definition parseFloat :: "string \<Rightarrow> jsnum" where
  "parseFloat s =
     (let s1 = dropWhile is_space s;
          neg = (case s1 of [] \<Rightarrow> False | c # _ \<Rightarrow> c = CHR ''-'');
          s2 = (case s1 of [] \<Rightarrow> [] | c # cs \<Rightarrow> if c = CHR ''-'' \<or> c = CHR ''+'' then cs else s1);
          ip = takeWhile is_dec s2;
          r1 = dropWhile is_dec s2;
          fp = (case r1 of [] \<Rightarrow> [] | c # cs \<Rightarrow> if c = CHR ''.'' then takeWhile is_dec cs else []);
          r2 = (case r1 of [] \<Rightarrow> [] | c # cs \<Rightarrow> if c = CHR ''.'' then dropWhile is_dec cs else r1);
          ex = (case r2 of
                  [] \<Rightarrow> 0
                | c # cs \<Rightarrow>
                    if c = CHR ''e'' \<or> c = CHR ''E'' then
                      (let eneg = (case cs of [] \<Rightarrow> False | d # _ \<Rightarrow> d = CHR ''-'');
                           es = (case cs of [] \<Rightarrow> []
                                 | d # ds \<Rightarrow> if d = CHR ''-'' \<or> d = CHR ''+'' then ds else cs);
                           ed = takeWhile is_dec es
                       in (if eneg then - 1 else 1) * int (digits_value 10 ed))
                    else 0);
          mant = (of_nat (digits_value 10 (ip @ fp)) :: rat) / 10 ^ length fp
      in if take 8 s2 = ''Infinity'' then Infinity neg
         else if ip = [] \<and> fp = [] then NaN
         else Num ((if neg then - 1 else 1) * mant
                   * (if 0 \<le> ex then 10 ^ nat ex else 1 / 10 ^ nat (- ex))))"

text \<open>
  JSON values. A number, \<open>true\<close>, \<open>false\<close> or \<open>null\<close> is kept as its JSON text (\<open>JLit\<close>).
  \<open>JSON.stringify\<close> is computed on this type, escaping the quotation mark and the backslash
  in strings; \<open>JSON.parse\<close> is a parameter of the handlers, a function that returns the
  value or the \<open>SyntaxError\<close> it throws.
\<close>

datatype json = JLit string | JStr string | JArr "json list" | JObj "(string \<times> json) list"

type_synonym doc = "(string \<times> json) list"

fun commas :: "string list \<Rightarrow> string" where
  "commas [] = []"
| "commas [x] = x"
| "commas (x # y # zs) = x @ '','' @ commas (y # zs)"

definition quote :: "string \<Rightarrow> string" where
  "quote s =
     CHR 0x22 # concat (map (\<lambda>c. if c = CHR 0x22 \<or> c = backslash then [backslash, c] else [c]) s)
       @ [CHR 0x22]"

fun JSON_stringify :: "json \<Rightarrow> string" where
  "JSON_stringify (JLit s) = s"
| "JSON_stringify (JStr s) = quote s"
| "JSON_stringify (JArr xs) = ''['' @ commas (map JSON_stringify xs) @ '']''"
| "JSON_stringify (JObj ms) =
     ''{'' @ commas (map (\<lambda>m. quote (fst m) @ '':'' @ JSON_stringify (snd m)) ms) @ ''}''"

text \<open>\<open>obj.name = v\<close> on a plain object: an existing member keeps its place, a new one goes last.\<close>

definition set_member :: "string \<Rightarrow> json \<Rightarrow> doc \<Rightarrow> doc" where
  "set_member k v ms =
     (if k \<in> fst ` set ms then map (\<lambda>m. if fst m = k then (k, v) else m) ms
      else ms @ [(k, v)])"

definition json_of_option :: "doc option \<Rightarrow> json" where
  "json_of_option d = (case d of None \<Rightarrow> JLit ''null'' | Some ms \<Rightarrow> JObj ms)"

section \<open>Process state: clock, store, database and metrics\<close>

text \<open>The queries the handlers send to MongoDB through Mongoose.\<close>

record product_query =
  q_category :: "string option"
  q_price :: "(jsnum option \<times> jsnum option) option"

record order_query =
  q_status :: "string option"
  q_userId :: "string option"

datatype db_call =
    UserFind int int
  | UserCountLoginsSince int
  | UserSearch "string option"
  | UserFindById "json option"
  | ProductFind product_query "int option" "int option"
  | ProductFindById string
  | OrderFind order_query "int option" "int option"
  | OrderFindById string

text \<open>
  The database is read through three functions of the query and the time it is sent: each
  gives the time the query takes (milliseconds) and its outcome, the rejection or the
  documents, the count, the document or \<open>null\<close>.
\<close>

record database =
  find_docs :: "db_call \<Rightarrow> int \<Rightarrow> nat \<times> (error + doc list)"
  count_docs :: "db_call \<Rightarrow> int \<Rightarrow> nat \<times> (error + nat)"
  find_one :: "db_call \<Rightarrow> int \<Rightarrow> nat \<times> (error + doc option)"

text \<open>
  \<open>now\<close> is \<open>Date.now()\<close>. \<open>cacheHitRate\<close> is the counter \<open>cache_operations_total\<close>, one
  value for each pair of labels; \<open>dbQueryDuration\<close> lists the samples given to the histogram
  \<open>db_query_duration_seconds\<close>, with their labels; \<open>db_log\<close> lists the queries sent.
\<close>

record state =
  now :: int
  redis :: redis_store
  db :: database
  db_log :: "db_call list"
  cacheHitRate :: "string \<times> string \<Rightarrow> nat"
  dbQueryDuration :: "(string list \<times> rat) list"

definition inc_cacheHitRate :: "string \<Rightarrow> string \<Rightarrow> state \<Rightarrow> state" where
  "inc_cacheHitRate operation result s =
     s\<lparr>cacheHitRate :=
         (cacheHitRate s)((operation, result) := cacheHitRate s (operation, result) + 1)\<rparr>"

definition observe_dbQueryDuration :: "string \<Rightarrow> string \<Rightarrow> int \<Rightarrow> state \<Rightarrow> state" where
  "observe_dbQueryDuration operation collection startTime s =
     s\<lparr>dbQueryDuration :=
         dbQueryDuration s @ [([operation, collection], of_int (now s - startTime) / 1000)]\<rparr>"

definition db_find :: "db_call \<Rightarrow> state \<Rightarrow> (error + doc list) \<times> state" where
  "db_find q s =
     (case find_docs (db s) q (now s) of
        (d, r) \<Rightarrow> (r, s\<lparr>now := now s + int d, db_log := db_log s @ [q]\<rparr>))"

definition db_count :: "db_call \<Rightarrow> state \<Rightarrow> (error + nat) \<times> state" where
  "db_count q s =
     (case count_docs (db s) q (now s) of
        (d, r) \<Rightarrow> (r, s\<lparr>now := now s + int d, db_log := db_log s @ [q]\<rparr>))"

definition db_find_one :: "db_call \<Rightarrow> state \<Rightarrow> (error + doc option) \<times> state" where
  "db_find_one q s =
     (case find_one (db s) q (now s) of
        (d, r) \<Rightarrow> (r, s\<lparr>now := now s + int d, db_log := db_log s @ [q]\<rparr>))"

section \<open>Requests, responses and the steps the handlers share\<close>

record request =
  query :: "string \<Rightarrow> string option"
  params_id :: string

datatype response = Json nat json

text \<open>The \<open>catch\<close> block of every handler: \<open>res.status(500).json({ error: error.message })\<close>.\<close>

fun error_response :: "error \<Rightarrow> response" where
  "error_response (Error m) = Json 500 (JObj [(''error'', JStr m)])"

text \<open>The text that passes a truthiness test such as \<open>if (cached)\<close>: neither missing nor empty.\<close>

definition truthy_text :: "string option \<Rightarrow> string option" where
  "truthy_text cached = (if truthy cached then cached else None)"

text \<open>
  The hit branch: \<open>cacheHitRate.labels('get', 'hit').inc(); return res.json(JSON.parse(cached))\<close>.
\<close>

definition reply_from_cache ::
  "(string \<Rightarrow> error + json) \<Rightarrow> string \<Rightarrow> state \<Rightarrow> response \<times> state" where
  "reply_from_cache JSON_parse c s =
     (let s1 = inc_cacheHitRate ''get'' ''hit'' s
      in case JSON_parse c of
           Inl e \<Rightarrow> (error_response e, s1)
         | Inr v \<Rightarrow> (Json 200 v, s1))"

text \<open>
  The end of the miss branch: \<open>await req.redis.setex(cacheKey, ttl, JSON.stringify(value))\<close>,
  the sample for \<open>dbQueryDuration\<close>, and \<open>res.json(value)\<close>.
\<close>

definition store_and_reply ::
  "string \<Rightarrow> int \<Rightarrow> string \<Rightarrow> string \<Rightarrow> int \<Rightarrow> json \<Rightarrow> state \<Rightarrow> response \<times> state" where
  "store_and_reply cacheKey ttl operation collection startTime v s =
     (case redis_setex (now s) cacheKey ttl (JSON_stringify v) (redis s) of
        Inl e \<Rightarrow> (error_response e, s)
      | Inr r \<Rightarrow>
          (Json 200 v, observe_dbQueryDuration operation collection startTime (s\<lparr>redis := r\<rparr>)))"

text \<open>
  The write handlers' invalidation:
  \<open>const keys = await req.redis.keys(pattern); if (keys.length) await req.redis.del(...keys)\<close>.
\<close>

definition invalidate :: "string \<Rightarrow> state \<Rightarrow> error + state" where
  "invalidate pattern s =
     (case redis_keys (now s) pattern (redis s) of
        Inl e \<Rightarrow> Inl e
      | Inr keys \<Rightarrow>
          if length keys \<noteq> 0 then
            (case redis_del keys (redis s) of
               Inl e \<Rightarrow> Inl e
             | Inr r \<Rightarrow> Inr (s\<lparr>redis := r\<rparr>))
          else Inr s)"

section \<open>routes/users.js\<close>

definition users_cacheKey :: "int \<Rightarrow> int \<Rightarrow> string" where
  "users_cacheKey page limit = ''users:'' @ show_int page @ '':'' @ show_int limit"

text \<open>
  The loop \<open>for (let user of users)\<close>: one \<open>countDocuments\<close> for each user, whose result
  becomes \<open>user.recentLogins\<close>.
\<close>

fun with_recentLogins :: "doc list \<Rightarrow> state \<Rightarrow> (error + doc list) \<times> state" where
  "with_recentLogins [] s = (Inr [], s)"
| "with_recentLogins (user # users) s =
     (case db_count (UserCountLoginsSince (now s - 86400000)) s of
        (Inl e, s1) \<Rightarrow> (Inl e, s1)
      | (Inr loginCount, s1) \<Rightarrow>
          (case with_recentLogins users s1 of
             (Inl e, s2) \<Rightarrow> (Inl e, s2)
           | (Inr rest, s2) \<Rightarrow>
               (Inr (set_member ''recentLogins'' (JLit (show_nat loginCount)) user # rest), s2)))"

text \<open>\<open>router.get('/')\<close>: all users with pagination.\<close>

definition users_list ::
  "(string \<Rightarrow> error + json) \<Rightarrow> request \<Rightarrow> state \<Rightarrow> response \<times> state" where
  "users_list JSON_parse req s =
     (let startTime = now s;
          page = num_or (parseInt_param (query req ''page'')) 1;
          limit = num_or (parseInt_param (query req ''limit'')) 10;
          skip = (page - 1) * limit;
          cacheKey = users_cacheKey page limit
      in case redis_get (now s) cacheKey (redis s) of
           Inl e \<Rightarrow> (error_response e, s)
         | Inr cached \<Rightarrow>
             (case truthy_text cached of
                Some c \<Rightarrow> reply_from_cache JSON_parse c s
              | None \<Rightarrow>
                  (case db_find (UserFind skip limit) (inc_cacheHitRate ''get'' ''miss'' s) of
                     (Inl e, s1) \<Rightarrow> (error_response e, s1)
                   | (Inr users, s1) \<Rightarrow>
                       (case with_recentLogins users s1 of
                          (Inl e, s2) \<Rightarrow> (error_response e, s2)
                        | (Inr users', s2) \<Rightarrow>
                            store_and_reply cacheKey 60 ''find'' ''users'' startTime
                              (JArr (map JObj users')) s2))))"

text \<open>
  \<open>router.get('/search')\<close>. \<open>RegExp_error\<close> gives the message of the \<open>SyntaxError\<close> that
  \<open>new RegExp(q, 'i')\<close> throws, if it throws; a missing \<open>q\<close> is the empty pattern.
\<close>

definition users_search ::
  "(string \<Rightarrow> string option) \<Rightarrow> request \<Rightarrow> state \<Rightarrow> response \<times> state" where
  "users_search RegExp_error req s =
     (let q = query req ''q'';
          startTime = now s
      in case (case q of None \<Rightarrow> None | Some p \<Rightarrow> RegExp_error p) of
           Some m \<Rightarrow> (error_response (Error m), s)
         | None \<Rightarrow>
             (case db_find (UserSearch q) s of
                (Inl e, s1) \<Rightarrow> (error_response e, s1)
              | (Inr users, s1) \<Rightarrow>
                  (Json 200 (JArr (map JObj users)),
                   observe_dbQueryDuration ''search'' ''users'' startTime s1)))"

section \<open>routes/products.js\<close>

text \<open>A destructured query parameter with a default: the default replaces \<open>undefined\<close> only.\<close>

definition param_default :: "string option \<Rightarrow> string \<Rightarrow> string" where
  "param_default p d = (case p of None \<Rightarrow> d | Some s \<Rightarrow> s)"

text \<open>\<open>(parseInt(page) - 1) * parseInt(limit)\<close>, which is \<open>NaN\<close> when either is.\<close>

definition skip_of :: "string \<Rightarrow> string \<Rightarrow> int option" where
  "skip_of page limit =
     (case parseInt page of
        None \<Rightarrow> None
      | Some p \<Rightarrow> (case parseInt limit of None \<Rightarrow> None | Some l \<Rightarrow> Some ((p - 1) * l)))"

definition products_cacheKey :: "request \<Rightarrow> string" where
  "products_cacheKey req =
     ''products:'' @ str_or (query req ''category'') ''all''
       @ '':'' @ str_or (query req ''minPrice'') ''0''
       @ '':'' @ str_or (query req ''maxPrice'') ''max''
       @ '':'' @ param_default (query req ''page'') ''1''
       @ '':'' @ param_default (query req ''limit'') ''20''"

definition products_query :: "request \<Rightarrow> product_query" where
  "products_query req =
     (let category = query req ''category'';
          minPrice = query req ''minPrice'';
          maxPrice = query req ''maxPrice''
      in \<lparr>q_category = truthy_text category,
          q_price =
            (if truthy minPrice \<or> truthy maxPrice then
               Some (map_option parseFloat (truthy_text minPrice),
                     map_option parseFloat (truthy_text maxPrice))
             else None)\<rparr>)"

text \<open>\<open>router.get('/')\<close>: all products with filtering.\<close>

definition products_list ::
  "(string \<Rightarrow> error + json) \<Rightarrow> request \<Rightarrow> state \<Rightarrow> response \<times> state" where
  "products_list JSON_parse req s =
     (let startTime = now s;
          page = param_default (query req ''page'') ''1'';
          limit = param_default (query req ''limit'') ''20'';
          skip = skip_of page limit;
          cacheKey = products_cacheKey req
      in case redis_get (now s) cacheKey (redis s) of
           Inl e \<Rightarrow> (error_response e, s)
         | Inr cached \<Rightarrow>
             (case truthy_text cached of
                Some c \<Rightarrow> reply_from_cache JSON_parse c s
              | None \<Rightarrow>
                  (case db_find (ProductFind (products_query req) skip (parseInt limit))
                          (inc_cacheHitRate ''get'' ''miss'' s) of
                     (Inl e, s1) \<Rightarrow> (error_response e, s1)
                   | (Inr products, s1) \<Rightarrow>
                       store_and_reply cacheKey 300 ''find'' ''products'' startTime
                         (JArr (map JObj products)) s1)))"

text \<open>\<open>router.get('/:id')\<close>: one product; a missing product is a 404 and is not cached.\<close>

definition products_by_id ::
  "(string \<Rightarrow> error + json) \<Rightarrow> request \<Rightarrow> state \<Rightarrow> response \<times> state" where
  "products_by_id JSON_parse req s =
     (let startTime = now s;
          cacheKey = ''product:'' @ params_id req
      in case redis_get (now s) cacheKey (redis s) of
           Inl e \<Rightarrow> (error_response e, s)
         | Inr cached \<Rightarrow>
             (case truthy_text cached of
                Some c \<Rightarrow> reply_from_cache JSON_parse c s
              | None \<Rightarrow>
                  (case db_find_one (ProductFindById (params_id req))
                          (inc_cacheHitRate ''get'' ''miss'' s) of
                     (Inl e, s1) \<Rightarrow> (error_response e, s1)
                   | (Inr None, s1) \<Rightarrow>
                       (Json 404 (JObj [(''error'', JStr ''Product not found'')]), s1)
                   | (Inr (Some product), s1) \<Rightarrow>
                       store_and_reply cacheKey 600 ''findById'' ''products'' startTime
                         (JObj product) s1)))"

section \<open>routes/orders.js\<close>

definition orders_cacheKey :: "request \<Rightarrow> string" where
  "orders_cacheKey req =
     ''orders:'' @ str_or (query req ''status'') ''all''
       @ '':'' @ str_or (query req ''userId'') ''all''
       @ '':'' @ param_default (query req ''page'') ''1''
       @ '':'' @ param_default (query req ''limit'') ''10''"

definition orders_query :: "request \<Rightarrow> order_query" where
  "orders_query req =
     \<lparr>q_status = truthy_text (query req ''status''),
      q_userId = truthy_text (query req ''userId'')\<rparr>"

text \<open>
  The loop \<open>for (let order of orders)\<close>: one \<open>User.findById(order.userId)\<close> for each order,
  whose result (the user or \<open>null\<close>) becomes \<open>order.userDetails\<close>.
\<close>

fun with_userDetails :: "doc list \<Rightarrow> state \<Rightarrow> (error + doc list) \<times> state" where
  "with_userDetails [] s = (Inr [], s)"
| "with_userDetails (order # orders) s =
     (case db_find_one (UserFindById (map_of order ''userId'')) s of
        (Inl e, s1) \<Rightarrow> (Inl e, s1)
      | (Inr user, s1) \<Rightarrow>
          (case with_userDetails orders s1 of
             (Inl e, s2) \<Rightarrow> (Inl e, s2)
           | (Inr rest, s2) \<Rightarrow>
               (Inr (set_member ''userDetails'' (json_of_option user) order # rest), s2)))"

text \<open>\<open>router.get('/')\<close>: all orders with pagination and filtering.\<close>

definition orders_list ::
  "(string \<Rightarrow> error + json) \<Rightarrow> request \<Rightarrow> state \<Rightarrow> response \<times> state" where
  "orders_list JSON_parse req s =
     (let startTime = now s;
          page = param_default (query req ''page'') ''1'';
          limit = param_default (query req ''limit'') ''10'';
          skip = skip_of page limit;
          cacheKey = orders_cacheKey req
      in case redis_get (now s) cacheKey (redis s) of
           Inl e \<Rightarrow> (error_response e, s)
         | Inr cached \<Rightarrow>
             (case truthy_text cached of
                Some c \<Rightarrow> reply_from_cache JSON_parse c s
              | None \<Rightarrow>
                  (case db_find (OrderFind (orders_query req) skip (parseInt limit))
                          (inc_cacheHitRate ''get'' ''miss'' s) of
                     (Inl e, s1) \<Rightarrow> (error_response e, s1)
                   | (Inr orders, s1) \<Rightarrow>
                       (case with_userDetails orders s1 of
                          (Inl e, s2) \<Rightarrow> (error_response e, s2)
                        | (Inr orders', s2) \<Rightarrow>
                            store_and_reply cacheKey 120 ''find'' ''orders'' startTime
                              (JArr (map JObj orders')) s2))))"

text \<open>
  \<open>router.get('/:id')\<close>: one order. The order is a Mongoose document, serialised through its
  schema paths: the assignment \<open>order.userDetails = user\<close> costs a query and leaves the
  serialised order as it was.
\<close>

definition orders_by_id ::
  "(string \<Rightarrow> error + json) \<Rightarrow> request \<Rightarrow> state \<Rightarrow> response \<times> state" where
  "orders_by_id JSON_parse req s =
     (let startTime = now s;
          cacheKey = ''order:'' @ params_id req
      in case redis_get (now s) cacheKey (redis s) of
           Inl e \<Rightarrow> (error_response e, s)
         | Inr cached \<Rightarrow>
             (case truthy_text cached of
                Some c \<Rightarrow> reply_from_cache JSON_parse c s
              | None \<Rightarrow>
                  (case db_find_one (OrderFindById (params_id req))
                          (inc_cacheHitRate ''get'' ''miss'' s) of
                     (Inl e, s1) \<Rightarrow> (error_response e, s1)
                   | (Inr None, s1) \<Rightarrow>
                       (Json 404 (JObj [(''error'', JStr ''Order not found'')]), s1)
                   | (Inr (Some order), s1) \<Rightarrow>
                       (case db_find_one (UserFindById (map_of order ''userId'')) s1 of
                          (Inl e, s2) \<Rightarrow> (error_response e, s2)
                        | (Inr user, s2) \<Rightarrow>
                            store_and_reply cacheKey 300 ''findById'' ''orders'' startTime
                              (JObj order) s2))))"

section \<open>bottlenecks/scenarios.js\<close>

text \<open>
  What the scenarios act on: the clock, the lengths of the arrays allocated so far, and the
  connections opened and never closed. \<open>pbkdf2_ms\<close> is the time one call of
  \<open>crypto.pbkdf2Sync\<close> takes, \<open>MONGODB_URI\<close> the environment variable and
  \<open>connect_error\<close> the rejection of \<open>mongoose.createConnection\<close>, if it rejects.
\<close>

record process =
  clock :: int
  allocations :: "nat list"
  connections :: "string list"
  pbkdf2_ms :: nat
  MONGODB_URI :: "string option"
  connect_error :: "string option"

text \<open>
  \<open>while (Date.now() - start < duration) { ... }\<close>, from the clock value \<open>t\<close>. The clock
  moves by the time an iteration takes; iterations shorter than the clock's resolution are
  taken together as one step of a millisecond.
\<close>

function spin :: "nat \<Rightarrow> int \<Rightarrow> int \<Rightarrow> int \<Rightarrow> int" where
  "spin cost start duration t =
     (if t - start < duration then spin cost start duration (t + int (max 1 cost)) else t)"
  by pat_completeness auto
termination
  by (relation "measure (\<lambda>(cost, start, duration, t). nat (start + duration - t))") auto

text \<open>A parameter with a default value: the default replaces a missing argument.\<close>

definition arg_default :: "int option \<Rightarrow> int \<Rightarrow> int" where
  "arg_default a d = (case a of None \<Rightarrow> d | Some x \<Rightarrow> x)"

definition cpuIntensive :: "int option \<Rightarrow> process \<Rightarrow> (error + unit) \<times> process" where
  "cpuIntensive arg p =
     (let duration = arg_default arg 1000;
          start = clock p
      in (Inr (), p\<lparr>clock := spin (pbkdf2_ms p) start duration start\<rparr>))"

text \<open>
  \<open>new Array(n)\<close> throws a \<open>RangeError\<close> unless \<open>n\<close> is an array length; the timer then
  suspends the scenario for 100 ms, and the length is returned.
\<close>

definition memoryIntensive :: "int option \<Rightarrow> process \<Rightarrow> (error + nat) \<times> process" where
  "memoryIntensive arg p =
     (let sizeMB = arg_default arg 50;
          n = sizeMB * 1024 * 1024 div 8
      in if n < 0 \<or> 4294967295 < n then (Inl (Error ''Invalid array length''), p)
         else (Inr (nat n),
               p\<lparr>clock := clock p + 100, allocations := allocations p @ [nat n]\<rparr>))"

definition blockEventLoop :: "int option \<Rightarrow> process \<Rightarrow> (error + unit) \<times> process" where
  "blockEventLoop arg p =
     (let duration = arg_default arg 500;
          start = clock p
      in (Inr (), p\<lparr>clock := spin 0 start duration start\<rparr>))"

text \<open>
  \<open>setTimeout(resolve, delay)\<close>: a delay outside \<open>1 .. 2^31 - 1\<close> is one millisecond. The
  timer is taken to fire when the delay has passed, not later.
\<close>

definition slowIO :: "int option \<Rightarrow> process \<Rightarrow> (error + unit) \<times> process" where
  "slowIO arg p =
     (let delay = arg_default arg 2000
      in (Inr (), p\<lparr>clock := clock p + (if delay < 1 \<or> 2147483647 < delay then 1 else delay)\<rparr>))"

definition dbConnectionLeak :: "process \<Rightarrow> (error + unit) \<times> process" where
  "dbConnectionLeak p =
     (case connect_error p of
        Some m \<Rightarrow> (Inl (Error m), p)
      | None \<Rightarrow>
          (Inr (),
           p\<lparr>connections :=
               connections p @ [str_or (MONGODB_URI p) ''mongodb://localhost:27017/perflab'']\<rparr>))"

text \<open>
  The object \<open>scenarios\<close>: its own properties, and the properties it inherits from
  \<open>Object.prototype\<close>. For an inherited function the table says whether a call without
  arguments returns or throws; \<open>__proto__\<close> is the prototype itself, an object that is not
  a function.
\<close>

datatype scenario = CpuIntensive | MemoryIntensive | BlockEventLoop | SlowIO | DbConnectionLeak

datatype inherited = Returns | Throws string | NotCallable

definition scenarios :: "(string \<times> scenario) list" where
  "scenarios =
     [(''cpuIntensive'', CpuIntensive), (''memoryIntensive'', MemoryIntensive),
      (''blockEventLoop'', BlockEventLoop), (''slowIO'', SlowIO),
      (''dbConnectionLeak'', DbConnectionLeak)]"

definition Object_prototype :: "(string \<times> inherited) list" where
  "Object_prototype =
     [(''constructor'', Returns),
      (''__defineGetter__'', Throws ''Object.prototype.__defineGetter__: Expecting function''),
      (''__defineSetter__'', Throws ''Object.prototype.__defineSetter__: Expecting function''),
      (''hasOwnProperty'', Returns), (''__lookupGetter__'', Returns),
      (''__lookupSetter__'', Returns), (''isPrototypeOf'', Returns),
      (''propertyIsEnumerable'', Returns), (''toString'', Returns), (''valueOf'', Returns),
      (''toLocaleString'', Returns), (''__proto__'', NotCallable)]"

text \<open>\<open>await scenarios[scenario]()\<close> for an own property: the scenario, called without argument.\<close>

fun call_scenario :: "scenario \<Rightarrow> process \<Rightarrow> (error + unit) \<times> process" where
  "call_scenario CpuIntensive p = cpuIntensive None p"
| "call_scenario MemoryIntensive p =
     (case memoryIntensive None p of (Inl e, p') \<Rightarrow> (Inl e, p') | (Inr n, p') \<Rightarrow> (Inr (), p'))"
| "call_scenario BlockEventLoop p = blockEventLoop None p"
| "call_scenario SlowIO p = slowIO None p"
| "call_scenario DbConnectionLeak p = dbConnectionLeak p"

text \<open>
  \<open>createBottleneck: async (scenario) => { if (scenarios[scenario]) { await scenarios[scenario](); } }\<close>
\<close>

definition createBottleneck :: "string \<Rightarrow> process \<Rightarrow> (error + unit) \<times> process" where
  "createBottleneck scenario p =
     (case map_of scenarios scenario of
        Some sc \<Rightarrow> call_scenario sc p
      | None \<Rightarrow>
          (case map_of Object_prototype scenario of
             None \<Rightarrow> (Inr (), p)
           | Some Returns \<Rightarrow> (Inr (), p)
           | Some (Throws m) \<Rightarrow> (Inl (Error m), p)
           | Some NotCallable \<Rightarrow> (Inl (Error ''scenarios[scenario] is not a function''), p)))"

section \<open>metrics.js and the metrics middleware of app.js\<close>

definition httpDuration_buckets :: "rat list" where
  "httpDuration_buckets = [0.1, 0.3, 0.5, 0.7, 1, 3, 5, 7, 10]"

definition dbQueryDuration_buckets :: "rat list" where
  "dbQueryDuration_buckets = [0.001, 0.005, 0.01, 0.05, 0.1, 0.5, 1, 2, 5]"

text \<open>
  Modelled from the spec: the histogram of the metrics library (\<open>prom-client\<close>), whose code is
  not part of the sources. Following section 4.1, a histogram declares its bucket boundaries
  and keeps, for each label tuple, one cumulative counter for each boundary, a running sum
  and a count.
\<close>

record 'a series =
  bucket_counts :: "nat list"
  sample_sum :: 'a
  sample_count :: nat

record 'a histogram =
  upperBounds :: "'a list"
  series_of :: "string list \<Rightarrow> 'a series"

text \<open>
  Modelled from the spec: the series of a label tuple before its first use (a label
  combination is created lazily), which the library provides.
\<close>

definition new_series :: "'a list \<Rightarrow> ('a::zero) series" where
  "new_series bounds =
     \<lparr>bucket_counts = map (\<lambda>b. 0) bounds, sample_sum = 0, sample_count = 0\<rparr>"

text \<open>
  Modelled from the spec: the library's constructor \<open>new promClient.Histogram({ buckets })\<close>.
\<close>

definition Histogram :: "'a list \<Rightarrow> ('a::zero) histogram" where
  "Histogram buckets = \<lparr>upperBounds = buckets, series_of = (\<lambda>labels. new_series buckets)\<rparr>"

text \<open>
  Modelled from the spec: the library's \<open>observe\<close> on one series. An observation increments
  the counter of every boundary greater than or equal to the observed value, the sum and the
  count.
\<close>

definition observe_series :: "'a list \<Rightarrow> 'a \<Rightarrow> 'a series \<Rightarrow> ('a::{linorder,plus}) series" where
  "observe_series bounds v s =
     \<lparr>bucket_counts = map (\<lambda>(b, c). if v \<le> b then c + 1 else c) (zip bounds (bucket_counts s)),
      sample_sum = sample_sum s + v,
      sample_count = sample_count s + 1\<rparr>"

text \<open>
  Modelled from the spec: the library's \<open>labels(...).observe(v)\<close>, which observes \<open>v\<close> in the
  series of the label tuple and leaves the other series alone.
\<close>

definition observe :: "string list \<Rightarrow> 'a \<Rightarrow> 'a histogram \<Rightarrow> ('a::{linorder,plus}) histogram" where
  "observe labels v h =
     h\<lparr>series_of := (series_of h)(labels := observe_series (upperBounds h) v (series_of h labels))\<rparr>"

text \<open>The histogram after a list of samples, oldest first.\<close>

definition observe_all ::
  "(string list \<times> 'a) list \<Rightarrow> 'a histogram \<Rightarrow> ('a::{linorder,plus}) histogram" where
  "observe_all samples h = fold (\<lambda>(labels, v). observe labels v) samples h"

text \<open>
  The two histograms of metrics.js, and the \<open>finish\<close> listener of the middleware in app.js:
  one sample of \<open>duration / 1000\<close> for \<open>httpDuration\<close> and one increment of
  \<open>httpRequestCounter\<close>, both labelled with the method, the route and the status code.
\<close>

record http_metrics =
  httpDuration :: "rat histogram"
  httpRequestCounter :: "string list \<Rightarrow> nat"

definition http_metrics_init :: http_metrics where
  "http_metrics_init =
     \<lparr>httpDuration = Histogram httpDuration_buckets, httpRequestCounter = (\<lambda>labels. 0)\<rparr>"

definition on_finish :: "int \<Rightarrow> int \<Rightarrow> string \<Rightarrow> string \<Rightarrow> nat \<Rightarrow> http_metrics \<Rightarrow> http_metrics" where
  "on_finish start finish method route statusCode m =
     (let duration = finish - start;
          labels = [method, route, show_nat statusCode]
      in m\<lparr>httpDuration := observe labels (of_int duration / 1000) (httpDuration m),
            httpRequestCounter := (httpRequestCounter m)(labels := httpRequestCounter m labels + 1)\<rparr>)"

text \<open>The histogram \<open>dbQueryDuration\<close> after the samples the handlers have recorded in a state.\<close>

definition dbQueryDuration_histogram :: "state \<Rightarrow> rat histogram" where
  "dbQueryDuration_histogram s = observe_all (dbQueryDuration s) (Histogram dbQueryDuration_buckets)"

text \<open>
  The shape of a series of a histogram with the given boundaries: one counter for each boundary,
  a larger boundary never has the smaller counter, and no counter exceeds the count.
\<close>

definition cumulative :: "'a::linorder list \<Rightarrow> 'a series \<Rightarrow> bool" where
  "cumulative bounds s =
     (length (bucket_counts s) = length bounds
      \<and> (\<forall>i j. i < length bounds \<and> j < length bounds \<and> bounds ! i \<le> bounds ! j
            \<longrightarrow> bucket_counts s ! i \<le> bucket_counts s ! j)
      \<and> (\<forall>i. i < length bounds \<longrightarrow> bucket_counts s ! i \<le> sample_count s))"


text \<open>A pattern text without the characters that \<open>KEYS\<close> reads as operators.\<close>

definition literal :: "string \<Rightarrow> bool" where
  "literal p = (\<forall>c \<in> set p. c \<noteq> CHR ''*'' \<and> c \<noteq> CHR ''?'' \<and> c \<noteq> CHR ''['' \<and> c \<noteq> backslash)"

section \<open>The read endpoints\<close>

text \<open>
  The \<open>GET\<close> routes that app.js mounts under \<open>/api/users\<close>, \<open>/api/products\<close> and
  \<open>/api/orders\<close>, the key under which each handler looks its answer up (the search has
  none and stores nothing, which \<open>0\<close> stands for), and the seconds it gives to \<open>setex\<close>.
\<close>

datatype read_endpoint =
  GetUsers | SearchUsers | GetProducts | GetProductById | GetOrders | GetOrderById

fun handle_read ::
  "(string \<Rightarrow> error + json) \<Rightarrow> (string \<Rightarrow> string option) \<Rightarrow> read_endpoint
   \<Rightarrow> request \<Rightarrow> state \<Rightarrow> response \<times> state" where
  "handle_read JSON_parse RegExp_error GetUsers = users_list JSON_parse"
| "handle_read JSON_parse RegExp_error SearchUsers = users_search RegExp_error"
| "handle_read JSON_parse RegExp_error GetProducts = products_list JSON_parse"
| "handle_read JSON_parse RegExp_error GetProductById = products_by_id JSON_parse"
| "handle_read JSON_parse RegExp_error GetOrders = orders_list JSON_parse"
| "handle_read JSON_parse RegExp_error GetOrderById = orders_by_id JSON_parse"

fun cacheKey_of :: "read_endpoint \<Rightarrow> request \<Rightarrow> string option" where
  "cacheKey_of GetUsers req =
     Some (users_cacheKey (num_or (parseInt_param (query req ''page'')) 1)
             (num_or (parseInt_param (query req ''limit'')) 10))"
| "cacheKey_of SearchUsers req = None"
| "cacheKey_of GetProducts req = Some (products_cacheKey req)"
| "cacheKey_of GetProductById req = Some (''product:'' @ params_id req)"
| "cacheKey_of GetOrders req = Some (orders_cacheKey req)"
| "cacheKey_of GetOrderById req = Some (''order:'' @ params_id req)"

fun ttl_of :: "read_endpoint \<Rightarrow> int" where
  "ttl_of GetUsers = 60"
| "ttl_of SearchUsers = 0"
| "ttl_of GetProducts = 300"
| "ttl_of GetProductById = 600"
| "ttl_of GetOrders = 120"
| "ttl_of GetOrderById = 300"

text \<open>A database that answers every query it is sent, whenever it is sent.\<close>

definition answers_all :: "database \<Rightarrow> bool" where
  "answers_all d =
     (\<forall>q t. (\<exists>r. snd (find_docs d q t) = Inr r)
          \<and> (\<exists>n. snd (count_docs d q t) = Inr n)
          \<and> (\<exists>x. snd (find_one d q t) = Inr x))"

section \<open>Example inputs\<close>

text \<open>
  A database that answers every query in a few milliseconds, a store with two live entries
  and an expired one at time 1000, and requests without and with parameters.
\<close>

definition db0 :: database where
  "db0 =
     \<lparr>find_docs = (\<lambda>q t. (15, Inr [[(''username'', JStr ''ann'')]])),
      count_docs = (\<lambda>q t. (2, Inr 3)),
      find_one = (\<lambda>q t. (1, Inr None))\<rparr>"

definition state0 :: state where
  "state0 =
     \<lparr>now = 1000,
      redis = \<lparr>entries = [(''users:1:10'', ''[]'', 61000),
                         (''products:all:0:max:1:20'', ''[]'', 301000),
                         (''users:2:10'', ''[]'', 500)],
               unavailable = None\<rparr>,
      db = db0, db_log = [], cacheHitRate = (\<lambda>labels. 0), dbQueryDuration = []\<rparr>"

definition request0 :: request where
  "request0 = \<lparr>query = (\<lambda>name. None), params_id = ''42''\<rparr>"

definition request_page2 :: request where
  "request_page2 = \<lparr>query = (\<lambda>name. if name = ''page'' then Some ''2'' else None), params_id = ''42''\<rparr>"

definition users0 :: json where
  "users0 = JArr [JObj [(''username'', JStr ''ann''), (''recentLogins'', JLit ''3'')]]"

definition JSON_parse0 :: "string \<Rightarrow> error + json" where
  "JSON_parse0 text =
     (if text = ''[]'' then Inr (JArr [])
      else if text = JSON_stringify users0 then Inr users0
      else Inl (Error ''Unexpected token in JSON''))"

definition RegExp_error0 :: "string \<Rightarrow> string option" where
  "RegExp_error0 p = (if p = ''('' then Some ''Invalid regular expression: /(/: Unterminated group'' else None)"

definition state_down :: state where
  "state_down = state0\<lparr>redis := (redis state0)\<lparr>unavailable := Some ''connect ETIMEDOUT''\<rparr>\<rparr>"

text \<open>The state that the handler of \<open>GET /api/users?page=2\<close> leaves when it starts in \<open>state0\<close>.\<close>

definition state1 :: state where
  "state1 =
     state0\<lparr>now := 1017,
            redis := \<lparr>entries = [(''users:2:10'', JSON_stringify users0, 61017),
                                (''users:1:10'', ''[]'', 61000),
                                (''products:all:0:max:1:20'', ''[]'', 301000)],
                      unavailable = None\<rparr>,
            db_log := [UserFind 10 10, UserCountLoginsSince (- 86398985)],
            cacheHitRate := (\<lambda>labels. 0)((''get'', ''miss'') := 1),
            dbQueryDuration := [([''find'', ''users''], 17 / 1000)]\<rparr>"

definition request_search :: request where
  "request_search = \<lparr>query = (\<lambda>name. if name = ''q'' then Some ''ann'' else None), params_id = ''42''\<rparr>"

definition request_category_all :: request where
  "request_category_all =
     \<lparr>query = (\<lambda>name. if name = ''category'' then Some ''all'' else None), params_id = ''42''\<rparr>"

definition request_status_all :: request where
  "request_status_all =
     \<lparr>query = (\<lambda>name. if name = ''status'' then Some ''all'' else None), params_id = ''42''\<rparr>"

definition request_page01 :: request where
  "request_page01 = \<lparr>query = (\<lambda>name. if name = ''page'' then Some ''01'' else None), params_id = ''42''\<rparr>"

definition process0 :: process where
  "process0 =
     \<lparr>clock = 0, allocations = [], connections = [], pbkdf2_ms = 70,
      MONGODB_URI = None, connect_error = None\<rparr>"

text \<open>
  A database in which the product \<open>42\<close> exists, a database that rejects every query with a
  given message, and a search for a pattern that is no regular expression.
\<close>

definition lamp :: doc where
  "lamp = [(''name'', JStr ''lamp''), (''price'', JLit ''12'')]"

definition db_shop :: database where
  "db_shop =
     db0\<lparr>find_one := (\<lambda>q t. (1, Inr (if q = ProductFindById ''42'' then Some lamp else None)))\<rparr>"

definition state_shop :: state where
  "state_shop = state0\<lparr>db := db_shop\<rparr>"

definition db_rejecting :: "string \<Rightarrow> database" where
  "db_rejecting m =
     \<lparr>find_docs = (\<lambda>q t. (5, Inl (Error m))),
      count_docs = (\<lambda>q t. (5, Inl (Error m))),
      find_one = (\<lambda>q t. (5, Inl (Error m)))\<rparr>"

definition state_db_down :: state where
  "state_db_down = state0\<lparr>db := db_rejecting ''connect ETIMEDOUT''\<rparr>"

definition request_bad_pattern :: request where
  "request_bad_pattern = \<lparr>query = (\<lambda>name. if name = ''q'' then Some ''('' else None), params_id = ''42''\<rparr>"

section \<open>The cached read handlers: hit and miss\<close>

lemma db_find_frame:
  "db_find q s = (r, s') \<Longrightarrow>
     redis s' = redis s \<and> cacheHitRate s' = cacheHitRate s \<and> dbQueryDuration s' = dbQueryDuration s
     \<and> now s \<le> now s' \<and> db s' = db s"
  by (auto simp: db_find_def split: prod.splits)

lemma db_count_frame:
  "db_count q s = (r, s') \<Longrightarrow>
     redis s' = redis s \<and> cacheHitRate s' = cacheHitRate s \<and> dbQueryDuration s' = dbQueryDuration s
     \<and> now s \<le> now s' \<and> db s' = db s"
  by (auto simp: db_count_def split: prod.splits)

lemma db_find_one_frame:
  "db_find_one q s = (r, s') \<Longrightarrow>
     redis s' = redis s \<and> cacheHitRate s' = cacheHitRate s \<and> dbQueryDuration s' = dbQueryDuration s
     \<and> now s \<le> now s' \<and> db s' = db s"
  by (auto simp: db_find_one_def split: prod.splits)

lemma with_recentLogins_frame:
  "with_recentLogins users s = (r, s') \<Longrightarrow>
     redis s' = redis s \<and> cacheHitRate s' = cacheHitRate s \<and> dbQueryDuration s' = dbQueryDuration s
     \<and> now s \<le> now s' \<and> db s' = db s"
proof (induction users arbitrary: s r s')
  case Nil
  then show ?case by simp
next
  case (Cons user users)
  obtain r1 s1 where c: "db_count (UserCountLoginsSince (now s - 86400000)) s = (r1, s1)"
    by (cases "db_count (UserCountLoginsSince (now s - 86400000)) s")
  note f1 = db_count_frame [OF c]
  show ?case
  proof (cases r1)
    case (Inl e)
    with Cons.prems c f1 show ?thesis by simp
  next
    case (Inr n)
    obtain r2 s2 where w: "with_recentLogins users s1 = (r2, s2)"
      by (cases "with_recentLogins users s1")
    note f2 = Cons.IH [OF w]
    from Cons.prems c Inr w have "s' = s2"
      by (cases r2) simp_all
    with f1 f2 show ?thesis by simp
  qed
qed

lemma with_userDetails_frame:
  "with_userDetails orders s = (r, s') \<Longrightarrow>
     redis s' = redis s \<and> cacheHitRate s' = cacheHitRate s \<and> dbQueryDuration s' = dbQueryDuration s
     \<and> now s \<le> now s' \<and> db s' = db s"
proof (induction orders arbitrary: s r s')
  case Nil
  then show ?case by simp
next
  case (Cons order orders)
  obtain r1 s1 where c: "db_find_one (UserFindById (map_of order ''userId'')) s = (r1, s1)"
    by (cases "db_find_one (UserFindById (map_of order ''userId'')) s")
  note f1 = db_find_one_frame [OF c]
  show ?case
  proof (cases r1)
    case (Inl e)
    with Cons.prems c f1 show ?thesis by simp
  next
    case (Inr u)
    obtain r2 s2 where w: "with_userDetails orders s1 = (r2, s2)"
      by (cases "with_userDetails orders s1")
    note f2 = Cons.IH [OF w]
    from Cons.prems c Inr w have "s' = s2"
      by (cases r2) simp_all
    with f1 f2 show ?thesis by simp
  qed
qed

lemma error_response_not_200: "error_response e \<noteq> Json 200 v"
  by (cases e) simp

lemma JSON_stringify_nonempty: "JSON_stringify (JArr xs) \<noteq> [] \<and> JSON_stringify (JObj ms) \<noteq> []"
  by simp

lemma store_and_reply_200:
  assumes "store_and_reply K ttl operation collection startTime v s = (Json 200 v', s')"
    and "0 < ttl"
  shows "v' = v \<and> cacheHitRate s' = cacheHitRate s \<and> now s' = now s
         \<and> unavailable (redis s') = None
         \<and> map_of (entries (redis s')) K = Some (JSON_stringify v, now s + ttl * 1000)
         \<and> (\<forall>k. k \<noteq> K \<longrightarrow> map_of (entries (redis s')) k = map_of (entries (redis s)) k)"
proof (cases "unavailable (redis s)")
  case (Some m)
  with assms show ?thesis
    by (simp add: store_and_reply_def redis_setex_def)
next
  case None
  have other: "map_of (filter (\<lambda>e. fst e \<noteq> K) es) k = map_of es k" if "k \<noteq> K" for k
    and es :: "(string \<times> string \<times> int) list"
    using that by (induction es) auto
  from None assms show ?thesis
    by (auto simp: store_and_reply_def redis_setex_def observe_dbQueryDuration_def other)
qed

lemma store_and_reply_counter:
  "cacheHitRate (snd (store_and_reply K ttl operation collection startTime v s)) = cacheHitRate s"
  by (simp add: store_and_reply_def observe_dbQueryDuration_def split: sum.splits)

lemma store_and_reply_fst:
  "unavailable (redis s) = None \<Longrightarrow> 0 < ttl
   \<Longrightarrow> fst (store_and_reply K ttl operation collection startTime v s) = Json 200 v"
  by (simp add: store_and_reply_def redis_setex_def)

lemma db_find_result:
  "db_find q s = (r, s') \<Longrightarrow> r = snd (find_docs (db s) q (now s))"
  by (auto simp: db_find_def split: prod.splits)

lemma db_count_result:
  "db_count q s = (r, s') \<Longrightarrow> r = snd (count_docs (db s) q (now s))"
  by (auto simp: db_count_def split: prod.splits)

lemma db_find_one_result:
  "db_find_one q s = (r, s') \<Longrightarrow> r = snd (find_one (db s) q (now s))"
  by (auto simp: db_find_one_def split: prod.splits)

lemma with_recentLogins_answers:
  "answers_all (db s) \<Longrightarrow> \<exists>users'. fst (with_recentLogins users s) = Inr users'"
proof (induction users arbitrary: s)
  case Nil
  then show ?case by simp
next
  case (Cons user users)
  obtain r1 s1 where c: "db_count (UserCountLoginsSince (now s - 86400000)) s = (r1, s1)"
    by (cases "db_count (UserCountLoginsSince (now s - 86400000)) s")
  from db_count_result [OF c] Cons.prems obtain n where n: "r1 = Inr n"
    by (auto simp: answers_all_def)
  from db_count_frame [OF c] Cons.prems have "answers_all (db s1)"
    by simp
  from Cons.IH [OF this] obtain rest where "fst (with_recentLogins users s1) = Inr rest"
    by blast
  with c n show ?case
    by (cases "with_recentLogins users s1") simp
qed

lemma with_userDetails_answers:
  "answers_all (db s) \<Longrightarrow> \<exists>orders'. fst (with_userDetails orders s) = Inr orders'"
proof (induction orders arbitrary: s)
  case Nil
  then show ?case by simp
next
  case (Cons order orders)
  obtain r1 s1 where c: "db_find_one (UserFindById (map_of order ''userId'')) s = (r1, s1)"
    by (cases "db_find_one (UserFindById (map_of order ''userId'')) s")
  from db_find_one_result [OF c] Cons.prems obtain u where u: "r1 = Inr u"
    by (auto simp: answers_all_def)
  from db_find_one_frame [OF c] Cons.prems have "answers_all (db s1)"
    by simp
  from Cons.IH [OF this] obtain rest where "fst (with_userDetails orders s1) = Inr rest"
    by blast
  with c u show ?case
    by (cases "with_userDetails orders s1") simp
qed


lemma inc_miss_frame:
  "redis (inc_cacheHitRate a b s) = redis s \<and> now (inc_cacheHitRate a b s) = now s
   \<and> db (inc_cacheHitRate a b s) = db s
   \<and> cacheHitRate (inc_cacheHitRate a b s) = (cacheHitRate s)((a, b) := cacheHitRate s (a, b) + 1)"
  by (simp add: inc_cacheHitRate_def)

lemma users_list_hit:
  assumes "unavailable (redis s) = None"
    and "live (now s) (redis s)
           (users_cacheKey (num_or (parseInt_param (query req ''page'')) 1)
              (num_or (parseInt_param (query req ''limit'')) 10)) = Some c"
    and "c \<noteq> []"
  shows "users_list P req s = reply_from_cache P c s"
  using assms by (simp add: users_list_def redis_get_def truthy_text_def truthy_def Let_def)

lemma users_list_miss:
  assumes up: "unavailable (redis s) = None"
    and K: "K = users_cacheKey (num_or (parseInt_param (query req ''page'')) 1)
              (num_or (parseInt_param (query req ''limit'')) 10)"
    and miss: "truthy_text (live (now s) (redis s) K) = None"
  shows "cacheHitRate (snd (users_list P req s))
           = (cacheHitRate s)((''get'', ''miss'') := cacheHitRate s (''get'', ''miss'') + 1)"
    and "users_list P req s = (Json 200 v, s1) \<Longrightarrow>
           map_of (entries (redis s1)) K = Some (JSON_stringify v, now s1 + 60 * 1000)
           \<and> unavailable (redis s1) = None \<and> JSON_stringify v \<noteq> []
           \<and> (\<forall>k. k \<noteq> K \<longrightarrow> map_of (entries (redis s1)) k = map_of (entries (redis s)) k)"
    and "(\<forall>v. fst (users_list P req s) \<noteq> Json 200 v) \<Longrightarrow> redis (snd (users_list P req s)) = redis s"
    and "(\<forall>q t. snd (find_docs (db s) q t) = Inl e) \<Longrightarrow> fst (users_list P req s) = error_response e"
    and "answers_all (db s) \<Longrightarrow> \<exists>v. fst (users_list P req s) = Json 200 v"
proof -
  let ?sm = "inc_cacheHitRate ''get'' ''miss'' s"
  let ?skip = "(num_or (parseInt_param (query req ''page'')) 1 - 1)
                 * num_or (parseInt_param (query req ''limit'')) 10"
  obtain r1 s1' where f: "db_find (UserFind ?skip (num_or (parseInt_param (query req ''limit'')) 10)) ?sm = (r1, s1')"
    by (cases "db_find (UserFind ?skip (num_or (parseInt_param (query req ''limit'')) 10)) ?sm")
  note ff = db_find_frame [OF f] inc_miss_frame [of "''get''" "''miss''" s]
  obtain r2 s2 where w: "with_recentLogins (case r1 of Inr us \<Rightarrow> us | Inl e \<Rightarrow> []) s1' = (r2, s2)"
    by (cases "with_recentLogins (case r1 of Inr us \<Rightarrow> us | Inl e \<Rightarrow> []) s1'")
  note wf = with_recentLogins_frame [OF w]
  have unfold: "users_list P req s =
      (case r1 of
         Inl e \<Rightarrow> (error_response e, s1')
       | Inr us \<Rightarrow>
           (case r2 of
              Inl e \<Rightarrow> (error_response e, s2)
            | Inr us' \<Rightarrow> store_and_reply K 60 ''find'' ''users'' (now s) (JArr (map JObj us')) s2))"
    using up miss f w
    by (simp add: users_list_def redis_get_def Let_def K split: sum.splits)
  show "cacheHitRate (snd (users_list P req s))
           = (cacheHitRate s)((''get'', ''miss'') := cacheHitRate s (''get'', ''miss'') + 1)"
    using ff wf by (simp add: unfold store_and_reply_counter split: sum.splits)
  show "map_of (entries (redis s1)) K = Some (JSON_stringify v, now s1 + 60 * 1000)
           \<and> unavailable (redis s1) = None \<and> JSON_stringify v \<noteq> []
           \<and> (\<forall>k. k \<noteq> K \<longrightarrow> map_of (entries (redis s1)) k = map_of (entries (redis s)) k)"
    if "users_list P req s = (Json 200 v, s1)"
  proof -
    from that unfold obtain us' where
      sr: "store_and_reply K 60 ''find'' ''users'' (now s) (JArr (map JObj us')) s2 = (Json 200 v, s1)"
      by (auto simp: error_response_not_200 split: sum.splits)
    from store_and_reply_200 [OF sr] ff wf show ?thesis by simp
  qed
  have r1: "r1 = snd (find_docs (db s)
                  (UserFind ?skip (num_or (parseInt_param (query req ''limit'')) 10)) (now s))"
    using db_find_result [OF f] ff by simp
  have up2: "unavailable (redis s2) = None"
    using ff wf up by simp
  show "redis (snd (users_list P req s)) = redis s"
    if "\<forall>v. fst (users_list P req s) \<noteq> Json 200 v"
    using that ff wf up2 by (auto simp: unfold store_and_reply_fst split: sum.splits)
  show "fst (users_list P req s) = error_response e"
    if "\<forall>q t. snd (find_docs (db s) q t) = Inl e"
    using that r1 by (simp add: unfold)
  show "\<exists>v. fst (users_list P req s) = Json 200 v" if "answers_all (db s)"
  proof -
    from that r1 obtain us where us: "r1 = Inr us"
      by (auto simp: answers_all_def)
    from that ff have "answers_all (db s1')"
      by simp
    from with_recentLogins_answers [OF this, of us] w us obtain us' where "r2 = Inr us'"
      by auto
    with us up2 show ?thesis
      by (simp add: unfold store_and_reply_fst)
  qed
qed


lemma products_list_hit:
  assumes "unavailable (redis s) = None"
    and "live (now s) (redis s) (products_cacheKey req) = Some c"
    and "c \<noteq> []"
  shows "products_list P req s = reply_from_cache P c s"
  using assms by (simp add: products_list_def redis_get_def truthy_text_def truthy_def Let_def)

lemma products_list_miss:
  assumes up: "unavailable (redis s) = None"
    and K: "K = products_cacheKey req"
    and miss: "truthy_text (live (now s) (redis s) K) = None"
  shows "cacheHitRate (snd (products_list P req s))
           = (cacheHitRate s)((''get'', ''miss'') := cacheHitRate s (''get'', ''miss'') + 1)"
    and "products_list P req s = (Json 200 v, s1) \<Longrightarrow>
           map_of (entries (redis s1)) K = Some (JSON_stringify v, now s1 + 300 * 1000)
           \<and> unavailable (redis s1) = None \<and> JSON_stringify v \<noteq> []
           \<and> (\<forall>k. k \<noteq> K \<longrightarrow> map_of (entries (redis s1)) k = map_of (entries (redis s)) k)"
    and "(\<forall>v. fst (products_list P req s) \<noteq> Json 200 v) \<Longrightarrow> redis (snd (products_list P req s)) = redis s"
    and "(\<forall>q t. snd (find_docs (db s) q t) = Inl e) \<Longrightarrow> fst (products_list P req s) = error_response e"
    and "answers_all (db s) \<Longrightarrow> \<exists>v. fst (products_list P req s) = Json 200 v"
proof -
  let ?sm = "inc_cacheHitRate ''get'' ''miss'' s"
  let ?q = "ProductFind (products_query req)
              (skip_of (param_default (query req ''page'') ''1'') (param_default (query req ''limit'') ''20''))
              (parseInt (param_default (query req ''limit'') ''20''))"
  obtain r1 s1' where f: "db_find ?q ?sm = (r1, s1')"
    by (cases "db_find ?q ?sm")
  note ff = db_find_frame [OF f] inc_miss_frame [of "''get''" "''miss''" s]
  have unfold: "products_list P req s =
      (case r1 of
         Inl e \<Rightarrow> (error_response e, s1')
       | Inr ps \<Rightarrow> store_and_reply K 300 ''find'' ''products'' (now s) (JArr (map JObj ps)) s1')"
    using up miss f
    by (simp add: products_list_def redis_get_def Let_def K split: sum.splits)
  show "cacheHitRate (snd (products_list P req s))
           = (cacheHitRate s)((''get'', ''miss'') := cacheHitRate s (''get'', ''miss'') + 1)"
    using ff by (simp add: unfold store_and_reply_counter split: sum.splits)
  show "map_of (entries (redis s1)) K = Some (JSON_stringify v, now s1 + 300 * 1000)
           \<and> unavailable (redis s1) = None \<and> JSON_stringify v \<noteq> []
           \<and> (\<forall>k. k \<noteq> K \<longrightarrow> map_of (entries (redis s1)) k = map_of (entries (redis s)) k)"
    if "products_list P req s = (Json 200 v, s1)"
  proof -
    from that unfold obtain ps where
      sr: "store_and_reply K 300 ''find'' ''products'' (now s) (JArr (map JObj ps)) s1' = (Json 200 v, s1)"
      by (auto simp: error_response_not_200 split: sum.splits)
    from store_and_reply_200 [OF sr] ff show ?thesis by simp
  qed
  have r1: "r1 = snd (find_docs (db s) ?q (now s))"
    using db_find_result [OF f] ff by simp
  have up1: "unavailable (redis s1') = None"
    using ff up by simp
  show "redis (snd (products_list P req s)) = redis s"
    if "\<forall>v. fst (products_list P req s) \<noteq> Json 200 v"
    using that ff up1 by (auto simp: unfold store_and_reply_fst split: sum.splits)
  show "fst (products_list P req s) = error_response e"
    if "\<forall>q t. snd (find_docs (db s) q t) = Inl e"
    using that r1 by (simp add: unfold)
  show "\<exists>v. fst (products_list P req s) = Json 200 v" if "answers_all (db s)"
  proof -
    from that r1 obtain ps where "r1 = Inr ps"
      by (auto simp: answers_all_def)
    with up1 show ?thesis
      by (simp add: unfold store_and_reply_fst)
  qed
qed

lemma products_by_id_hit:
  assumes "unavailable (redis s) = None"
    and "live (now s) (redis s) (''product:'' @ params_id req) = Some c"
    and "c \<noteq> []"
  shows "products_by_id P req s = reply_from_cache P c s"
  using assms by (simp add: products_by_id_def redis_get_def truthy_text_def truthy_def Let_def)

lemma products_by_id_miss:
  assumes up: "unavailable (redis s) = None"
    and K: "K = ''product:'' @ params_id req"
    and miss: "truthy_text (live (now s) (redis s) K) = None"
  shows "cacheHitRate (snd (products_by_id P req s))
           = (cacheHitRate s)((''get'', ''miss'') := cacheHitRate s (''get'', ''miss'') + 1)"
    and "products_by_id P req s = (Json 200 v, s1) \<Longrightarrow>
           map_of (entries (redis s1)) K = Some (JSON_stringify v, now s1 + 600 * 1000)
           \<and> unavailable (redis s1) = None \<and> JSON_stringify v \<noteq> []
           \<and> (\<forall>k. k \<noteq> K \<longrightarrow> map_of (entries (redis s1)) k = map_of (entries (redis s)) k)"
    and "(\<forall>v. fst (products_by_id P req s) \<noteq> Json 200 v) \<Longrightarrow> redis (snd (products_by_id P req s)) = redis s"
    and "(\<forall>q t. snd (find_one (db s) q t) = Inl e) \<Longrightarrow> fst (products_by_id P req s) = error_response e"
    and "answers_all (db s) \<Longrightarrow>
           fst (products_by_id P req s)
             = (case snd (find_one (db s) (ProductFindById (params_id req)) (now s)) of
                  Inr (Some product) \<Rightarrow> Json 200 (JObj product)
                | _ \<Rightarrow> Json 404 (JObj [(''error'', JStr ''Product not found'')]))"
proof -
  let ?sm = "inc_cacheHitRate ''get'' ''miss'' s"
  obtain r1 s1' where f: "db_find_one (ProductFindById (params_id req)) ?sm = (r1, s1')"
    by (cases "db_find_one (ProductFindById (params_id req)) ?sm")
  note ff = db_find_one_frame [OF f] inc_miss_frame [of "''get''" "''miss''" s]
  have unfold: "products_by_id P req s =
      (case r1 of
         Inl e \<Rightarrow> (error_response e, s1')
       | Inr None \<Rightarrow> (Json 404 (JObj [(''error'', JStr ''Product not found'')]), s1')
       | Inr (Some p) \<Rightarrow> store_and_reply K 600 ''findById'' ''products'' (now s) (JObj p) s1')"
    using up miss f
    by (simp add: products_by_id_def redis_get_def Let_def K split: sum.splits option.splits)
  show "cacheHitRate (snd (products_by_id P req s))
           = (cacheHitRate s)((''get'', ''miss'') := cacheHitRate s (''get'', ''miss'') + 1)"
    using ff by (simp add: unfold store_and_reply_counter split: sum.splits option.splits)
  show "map_of (entries (redis s1)) K = Some (JSON_stringify v, now s1 + 600 * 1000)
           \<and> unavailable (redis s1) = None \<and> JSON_stringify v \<noteq> []
           \<and> (\<forall>k. k \<noteq> K \<longrightarrow> map_of (entries (redis s1)) k = map_of (entries (redis s)) k)"
    if "products_by_id P req s = (Json 200 v, s1)"
  proof -
    from that unfold obtain p where
      sr: "store_and_reply K 600 ''findById'' ''products'' (now s) (JObj p) s1' = (Json 200 v, s1)"
      by (auto simp: error_response_not_200 split: sum.splits option.splits)
    from store_and_reply_200 [OF sr] ff show ?thesis by simp
  qed
  have r1: "r1 = snd (find_one (db s) (ProductFindById (params_id req)) (now s))"
    using db_find_one_result [OF f] ff by simp
  have up1: "unavailable (redis s1') = None"
    using ff up by simp
  show "redis (snd (products_by_id P req s)) = redis s"
    if "\<forall>v. fst (products_by_id P req s) \<noteq> Json 200 v"
    using that ff up1 by (auto simp: unfold store_and_reply_fst split: sum.splits option.splits)
  show "fst (products_by_id P req s) = error_response e"
    if "\<forall>q t. snd (find_one (db s) q t) = Inl e"
    using that r1 by (simp add: unfold)
  show "fst (products_by_id P req s)
             = (case snd (find_one (db s) (ProductFindById (params_id req)) (now s)) of
                  Inr (Some product) \<Rightarrow> Json 200 (JObj product)
                | _ \<Rightarrow> Json 404 (JObj [(''error'', JStr ''Product not found'')]))"
    if "answers_all (db s)"
  proof -
    from that obtain x where
      x: "snd (find_one (db s) (ProductFindById (params_id req)) (now s)) = Inr x"
      unfolding answers_all_def by blast
    with r1 have "r1 = Inr x"
      by simp
    with up1 show ?thesis
      unfolding x by (cases x) (simp_all add: unfold store_and_reply_fst)
  qed
qed

lemma orders_list_hit:
  assumes "unavailable (redis s) = None"
    and "live (now s) (redis s) (orders_cacheKey req) = Some c"
    and "c \<noteq> []"
  shows "orders_list P req s = reply_from_cache P c s"
  using assms by (simp add: orders_list_def redis_get_def truthy_text_def truthy_def Let_def)

lemma orders_list_miss:
  assumes up: "unavailable (redis s) = None"
    and K: "K = orders_cacheKey req"
    and miss: "truthy_text (live (now s) (redis s) K) = None"
  shows "cacheHitRate (snd (orders_list P req s))
           = (cacheHitRate s)((''get'', ''miss'') := cacheHitRate s (''get'', ''miss'') + 1)"
    and "orders_list P req s = (Json 200 v, s1) \<Longrightarrow>
           map_of (entries (redis s1)) K = Some (JSON_stringify v, now s1 + 120 * 1000)
           \<and> unavailable (redis s1) = None \<and> JSON_stringify v \<noteq> []
           \<and> (\<forall>k. k \<noteq> K \<longrightarrow> map_of (entries (redis s1)) k = map_of (entries (redis s)) k)"
    and "(\<forall>v. fst (orders_list P req s) \<noteq> Json 200 v) \<Longrightarrow> redis (snd (orders_list P req s)) = redis s"
    and "(\<forall>q t. snd (find_docs (db s) q t) = Inl e) \<Longrightarrow> fst (orders_list P req s) = error_response e"
    and "answers_all (db s) \<Longrightarrow> \<exists>v. fst (orders_list P req s) = Json 200 v"
proof -
  let ?sm = "inc_cacheHitRate ''get'' ''miss'' s"
  let ?q = "OrderFind (orders_query req)
              (skip_of (param_default (query req ''page'') ''1'') (param_default (query req ''limit'') ''10''))
              (parseInt (param_default (query req ''limit'') ''10''))"
  obtain r1 s1' where f: "db_find ?q ?sm = (r1, s1')"
    by (cases "db_find ?q ?sm")
  note ff = db_find_frame [OF f] inc_miss_frame [of "''get''" "''miss''" s]
  obtain r2 s2 where w: "with_userDetails (case r1 of Inr os \<Rightarrow> os | Inl e \<Rightarrow> []) s1' = (r2, s2)"
    by (cases "with_userDetails (case r1 of Inr os \<Rightarrow> os | Inl e \<Rightarrow> []) s1'")
  note wf = with_userDetails_frame [OF w]
  have unfold: "orders_list P req s =
      (case r1 of
         Inl e \<Rightarrow> (error_response e, s1')
       | Inr os \<Rightarrow>
           (case r2 of
              Inl e \<Rightarrow> (error_response e, s2)
            | Inr os' \<Rightarrow> store_and_reply K 120 ''find'' ''orders'' (now s) (JArr (map JObj os')) s2))"
    using up miss f w
    by (simp add: orders_list_def redis_get_def Let_def K split: sum.splits)
  show "cacheHitRate (snd (orders_list P req s))
           = (cacheHitRate s)((''get'', ''miss'') := cacheHitRate s (''get'', ''miss'') + 1)"
    using ff wf by (simp add: unfold store_and_reply_counter split: sum.splits)
  show "map_of (entries (redis s1)) K = Some (JSON_stringify v, now s1 + 120 * 1000)
           \<and> unavailable (redis s1) = None \<and> JSON_stringify v \<noteq> []
           \<and> (\<forall>k. k \<noteq> K \<longrightarrow> map_of (entries (redis s1)) k = map_of (entries (redis s)) k)"
    if "orders_list P req s = (Json 200 v, s1)"
  proof -
    from that unfold obtain os' where
      sr: "store_and_reply K 120 ''find'' ''orders'' (now s) (JArr (map JObj os')) s2 = (Json 200 v, s1)"
      by (auto simp: error_response_not_200 split: sum.splits)
    from store_and_reply_200 [OF sr] ff wf show ?thesis by simp
  qed
  have r1: "r1 = snd (find_docs (db s) ?q (now s))"
    using db_find_result [OF f] ff by simp
  have up2: "unavailable (redis s2) = None"
    using ff wf up by simp
  show "redis (snd (orders_list P req s)) = redis s"
    if "\<forall>v. fst (orders_list P req s) \<noteq> Json 200 v"
    using that ff wf up2 by (auto simp: unfold store_and_reply_fst split: sum.splits)
  show "fst (orders_list P req s) = error_response e"
    if "\<forall>q t. snd (find_docs (db s) q t) = Inl e"
    using that r1 by (simp add: unfold)
  show "\<exists>v. fst (orders_list P req s) = Json 200 v" if "answers_all (db s)"
  proof -
    from that r1 obtain os where os: "r1 = Inr os"
      by (auto simp: answers_all_def)
    from that ff have "answers_all (db s1')"
      by simp
    from with_userDetails_answers [OF this, of os] w os obtain os' where "r2 = Inr os'"
      by auto
    with os up2 show ?thesis
      by (simp add: unfold store_and_reply_fst)
  qed
qed

lemma orders_by_id_hit:
  assumes "unavailable (redis s) = None"
    and "live (now s) (redis s) (''order:'' @ params_id req) = Some c"
    and "c \<noteq> []"
  shows "orders_by_id P req s = reply_from_cache P c s"
  using assms by (simp add: orders_by_id_def redis_get_def truthy_text_def truthy_def Let_def)

lemma orders_by_id_miss:
  assumes up: "unavailable (redis s) = None"
    and K: "K = ''order:'' @ params_id req"
    and miss: "truthy_text (live (now s) (redis s) K) = None"
  shows "cacheHitRate (snd (orders_by_id P req s))
           = (cacheHitRate s)((''get'', ''miss'') := cacheHitRate s (''get'', ''miss'') + 1)"
    and "orders_by_id P req s = (Json 200 v, s1) \<Longrightarrow>
           map_of (entries (redis s1)) K = Some (JSON_stringify v, now s1 + 300 * 1000)
           \<and> unavailable (redis s1) = None \<and> JSON_stringify v \<noteq> []
           \<and> (\<forall>k. k \<noteq> K \<longrightarrow> map_of (entries (redis s1)) k = map_of (entries (redis s)) k)"
    and "(\<forall>v. fst (orders_by_id P req s) \<noteq> Json 200 v) \<Longrightarrow> redis (snd (orders_by_id P req s)) = redis s"
    and "(\<forall>q t. snd (find_one (db s) q t) = Inl e) \<Longrightarrow> fst (orders_by_id P req s) = error_response e"
    and "answers_all (db s) \<Longrightarrow>
           fst (orders_by_id P req s)
             = (case snd (find_one (db s) (OrderFindById (params_id req)) (now s)) of
                  Inr (Some order) \<Rightarrow> Json 200 (JObj order)
                | _ \<Rightarrow> Json 404 (JObj [(''error'', JStr ''Order not found'')]))"
proof -
  let ?sm = "inc_cacheHitRate ''get'' ''miss'' s"
  obtain r1 s1' where f: "db_find_one (OrderFindById (params_id req)) ?sm = (r1, s1')"
    by (cases "db_find_one (OrderFindById (params_id req)) ?sm")
  note ff = db_find_one_frame [OF f] inc_miss_frame [of "''get''" "''miss''" s]
  let ?uid = "map_of (case r1 of Inr (Some ord) \<Rightarrow> ord | _ \<Rightarrow> []) ''userId''"
  obtain r2 s2 where u: "db_find_one (UserFindById ?uid) s1' = (r2, s2)"
    by (cases "db_find_one (UserFindById ?uid) s1'")
  note uf = db_find_one_frame [OF u]
  have unfold: "orders_by_id P req s =
      (case r1 of
         Inl e \<Rightarrow> (error_response e, s1')
       | Inr None \<Rightarrow> (Json 404 (JObj [(''error'', JStr ''Order not found'')]), s1')
       | Inr (Some ord) \<Rightarrow>
           (case r2 of
              Inl e \<Rightarrow> (error_response e, s2)
            | Inr user \<Rightarrow> store_and_reply K 300 ''findById'' ''orders'' (now s) (JObj ord) s2))"
    using up miss f u
    by (auto simp: orders_by_id_def redis_get_def Let_def K split: sum.splits option.splits)
  show "cacheHitRate (snd (orders_by_id P req s))
           = (cacheHitRate s)((''get'', ''miss'') := cacheHitRate s (''get'', ''miss'') + 1)"
    using ff uf by (simp add: unfold store_and_reply_counter split: sum.splits option.splits)
  show "map_of (entries (redis s1)) K = Some (JSON_stringify v, now s1 + 300 * 1000)
           \<and> unavailable (redis s1) = None \<and> JSON_stringify v \<noteq> []
           \<and> (\<forall>k. k \<noteq> K \<longrightarrow> map_of (entries (redis s1)) k = map_of (entries (redis s)) k)"
    if "orders_by_id P req s = (Json 200 v, s1)"
  proof -
    from that unfold obtain ord where
      sr: "store_and_reply K 300 ''findById'' ''orders'' (now s) (JObj ord) s2 = (Json 200 v, s1)"
      by (auto simp: error_response_not_200 split: sum.splits option.splits)
    from store_and_reply_200 [OF sr] ff uf show ?thesis by simp
  qed
  have r1: "r1 = snd (find_one (db s) (OrderFindById (params_id req)) (now s))"
    using db_find_one_result [OF f] ff by simp
  have r2: "r2 = snd (find_one (db s1') (UserFindById ?uid) (now s1'))"
    using db_find_one_result [OF u] by simp
  have up2: "unavailable (redis s2) = None"
    using ff uf up by simp
  show "redis (snd (orders_by_id P req s)) = redis s"
    if "\<forall>v. fst (orders_by_id P req s) \<noteq> Json 200 v"
    using that ff uf up2 by (auto simp: unfold store_and_reply_fst split: sum.splits option.splits)
  show "fst (orders_by_id P req s) = error_response e"
    if "\<forall>q t. snd (find_one (db s) q t) = Inl e"
    using that r1 by (simp add: unfold)
  show "fst (orders_by_id P req s)
             = (case snd (find_one (db s) (OrderFindById (params_id req)) (now s)) of
                  Inr (Some order) \<Rightarrow> Json 200 (JObj order)
                | _ \<Rightarrow> Json 404 (JObj [(''error'', JStr ''Order not found'')]))"
    if "answers_all (db s)"
  proof -
    from that obtain x where
      x: "snd (find_one (db s) (OrderFindById (params_id req)) (now s)) = Inr x"
      unfolding answers_all_def by blast
    with r1 have r1x: "r1 = Inr x"
      by simp
    from that ff have "answers_all (db s1')"
      by simp
    then obtain y where "snd (find_one (db s1') (UserFindById ?uid) (now s1')) = Inr y"
      unfolding answers_all_def by blast
    with r2 have "r2 = Inr y"
      by simp
    with r1x up2 show ?thesis
      unfolding x by (cases x) (simp_all add: unfold store_and_reply_fst)
  qed
qed

lemma reply_from_cache_eq:
  "reply_from_cache P c s =
     ((case P c of Inl e \<Rightarrow> error_response e | Inr v \<Rightarrow> Json 200 v),
      s\<lparr>cacheHitRate := (cacheHitRate s)((''get'', ''hit'') := cacheHitRate s (''get'', ''hit'') + 1)\<rparr>)"
  by (simp add: reply_from_cache_def inc_cacheHitRate_def Let_def split: sum.splits)

lemma handle_read_hit:
  assumes "cacheKey_of ep req = Some K" and "unavailable (redis s) = None"
    and "live (now s) (redis s) K = Some c" and "c \<noteq> []"
  shows "handle_read P R ep req s = reply_from_cache P c s"
proof (cases ep)
  case GetUsers
  with assms users_list_hit [of s req c P] show ?thesis by simp
next
  case SearchUsers
  with assms show ?thesis by simp
next
  case GetProducts
  with assms products_list_hit [of s req c P] show ?thesis by simp
next
  case GetProductById
  with assms products_by_id_hit [of s req c P] show ?thesis by simp
next
  case GetOrders
  with assms orders_list_hit [of s req c P] show ?thesis by simp
next
  case GetOrderById
  with assms orders_by_id_hit [of s req c P] show ?thesis by simp
qed

lemma handle_read_miss_counter:
  assumes "cacheKey_of ep req = Some K" and "unavailable (redis s) = None"
    and "truthy_text (live (now s) (redis s) K) = None"
  shows "cacheHitRate (snd (handle_read P R ep req s))
           = (cacheHitRate s)((''get'', ''miss'') := cacheHitRate s (''get'', ''miss'') + 1)"
proof (cases ep)
  case GetUsers
  with assms users_list_miss(1) [of s K req P] show ?thesis by simp
next
  case SearchUsers
  with assms show ?thesis by simp
next
  case GetProducts
  with assms products_list_miss(1) [of s K req P] show ?thesis by simp
next
  case GetProductById
  with assms products_by_id_miss(1) [of s K req P] show ?thesis by simp
next
  case GetOrders
  with assms orders_list_miss(1) [of s K req P] show ?thesis by simp
next
  case GetOrderById
  with assms orders_by_id_miss(1) [of s K req P] show ?thesis by simp
qed

lemma handle_read_miss_store:
  assumes "cacheKey_of ep req = Some K" and "unavailable (redis s) = None"
    and "truthy_text (live (now s) (redis s) K) = None"
    and "handle_read P R ep req s = (Json 200 v, s1)"
  shows "map_of (entries (redis s1)) K = Some (JSON_stringify v, now s1 + ttl_of ep * 1000)
         \<and> unavailable (redis s1) = None \<and> JSON_stringify v \<noteq> []
         \<and> (\<forall>k. k \<noteq> K \<longrightarrow> map_of (entries (redis s1)) k = map_of (entries (redis s)) k)"
proof (cases ep)
  case GetUsers
  with assms users_list_miss(2) [of s K req P v s1] show ?thesis by simp
next
  case SearchUsers
  with assms show ?thesis by simp
next
  case GetProducts
  with assms products_list_miss(2) [of s K req P v s1] show ?thesis by simp
next
  case GetProductById
  with assms products_by_id_miss(2) [of s K req P v s1] show ?thesis by simp
next
  case GetOrders
  with assms orders_list_miss(2) [of s K req P v s1] show ?thesis by simp
next
  case GetOrderById
  with assms orders_by_id_miss(2) [of s K req P v s1] show ?thesis by simp
qed

lemma handle_read_miss_unstored:
  assumes "cacheKey_of ep req = Some K" and "unavailable (redis s) = None"
    and "truthy_text (live (now s) (redis s) K) = None"
    and "\<forall>v. fst (handle_read P R ep req s) \<noteq> Json 200 v"
  shows "redis (snd (handle_read P R ep req s)) = redis s"
proof (cases ep)
  case GetUsers
  with assms(1) have K: "K = users_cacheKey (num_or (parseInt_param (query req ''page'')) 1)
              (num_or (parseInt_param (query req ''limit'')) 10)"
    by simp
  from users_list_miss(3) [OF assms(2) K assms(3)] assms GetUsers show ?thesis
    by simp
next
  case SearchUsers
  with assms show ?thesis by simp
next
  case GetProducts
  with assms(1) have K: "K = products_cacheKey req"
    by simp
  from products_list_miss(3) [OF assms(2) K assms(3)] assms GetProducts show ?thesis
    by simp
next
  case GetProductById
  with assms(1) have K: "K = ''product:'' @ params_id req"
    by simp
  from products_by_id_miss(3) [OF assms(2) K assms(3)] assms GetProductById show ?thesis
    by simp
next
  case GetOrders
  with assms(1) have K: "K = orders_cacheKey req"
    by simp
  from orders_list_miss(3) [OF assms(2) K assms(3)] assms GetOrders show ?thesis
    by simp
next
  case GetOrderById
  with assms(1) have K: "K = ''order:'' @ params_id req"
    by simp
  from orders_by_id_miss(3) [OF assms(2) K assms(3)] assms GetOrderById show ?thesis
    by simp
qed

lemma handle_read_miss_rejected:
  assumes "cacheKey_of ep req = Some K" and "unavailable (redis s) = None"
    and "truthy_text (live (now s) (redis s) K) = None"
    and "\<forall>q t. snd (find_docs (db s) q t) = Inl e" and "\<forall>q t. snd (find_one (db s) q t) = Inl e"
  shows "fst (handle_read P R ep req s) = error_response e"
proof (cases ep)
  case GetUsers
  with assms(1) have K: "K = users_cacheKey (num_or (parseInt_param (query req ''page'')) 1)
              (num_or (parseInt_param (query req ''limit'')) 10)"
    by simp
  from users_list_miss(4) [OF assms(2) K assms(3)] assms GetUsers show ?thesis
    by simp
next
  case SearchUsers
  with assms show ?thesis by simp
next
  case GetProducts
  with assms(1) have K: "K = products_cacheKey req"
    by simp
  from products_list_miss(4) [OF assms(2) K assms(3)] assms GetProducts show ?thesis
    by simp
next
  case GetProductById
  with assms(1) have K: "K = ''product:'' @ params_id req"
    by simp
  from products_by_id_miss(4) [OF assms(2) K assms(3)] assms GetProductById show ?thesis
    by simp
next
  case GetOrders
  with assms(1) have K: "K = orders_cacheKey req"
    by simp
  from orders_list_miss(4) [OF assms(2) K assms(3)] assms GetOrders show ?thesis
    by simp
next
  case GetOrderById
  with assms(1) have K: "K = ''order:'' @ params_id req"
    by simp
  from orders_by_id_miss(4) [OF assms(2) K assms(3)] assms GetOrderById show ?thesis
    by simp
qed

lemma handle_read_miss_answers:
  assumes "cacheKey_of ep req = Some K" and "unavailable (redis s) = None"
    and "truthy_text (live (now s) (redis s) K) = None"
    and "answers_all (db s)"
  shows "(ep = GetProductById \<longrightarrow>
           fst (handle_read P R ep req s)
             = (case snd (find_one (db s) (ProductFindById (params_id req)) (now s)) of
                  Inr (Some product) \<Rightarrow> Json 200 (JObj product)
                | _ \<Rightarrow> Json 404 (JObj [(''error'', JStr ''Product not found'')])))
    \<and> (ep = GetOrderById \<longrightarrow>
           fst (handle_read P R ep req s)
             = (case snd (find_one (db s) (OrderFindById (params_id req)) (now s)) of
                  Inr (Some order) \<Rightarrow> Json 200 (JObj order)
                | _ \<Rightarrow> Json 404 (JObj [(''error'', JStr ''Order not found'')])))
    \<and> (ep \<noteq> GetProductById \<and> ep \<noteq> GetOrderById
         \<longrightarrow> (\<exists>v. fst (handle_read P R ep req s) = Json 200 v))"
proof (cases ep)
  case GetUsers
  with assms(1) have K: "K = users_cacheKey (num_or (parseInt_param (query req ''page'')) 1)
              (num_or (parseInt_param (query req ''limit'')) 10)"
    by simp
  from users_list_miss(5) [OF assms(2) K assms(3)] assms GetUsers show ?thesis
    by simp
next
  case SearchUsers
  with assms show ?thesis by simp
next
  case GetProducts
  with assms(1) have K: "K = products_cacheKey req"
    by simp
  from products_list_miss(5) [OF assms(2) K assms(3)] assms GetProducts show ?thesis
    by simp
next
  case GetProductById
  with assms(1) have K: "K = ''product:'' @ params_id req"
    by simp
  from products_by_id_miss(5) [OF assms(2) K assms(3)] assms GetProductById show ?thesis
    by simp
next
  case GetOrders
  with assms(1) have K: "K = orders_cacheKey req"
    by simp
  from orders_list_miss(5) [OF assms(2) K assms(3)] assms GetOrders show ?thesis
    by simp
next
  case GetOrderById
  with assms(1) have K: "K = ''order:'' @ params_id req"
    by simp
  from orders_by_id_miss(5) [OF assms(2) K assms(3)] assms GetOrderById show ?thesis
    by simp
qed

section \<open>Miss, hit and expiry\<close>

lemma stored_value_hits_until_expiry:
  assumes key: "cacheKey_of ep req = Some K"
    and up: "unavailable (redis s) = None"
    and fresh: "live (now s) (redis s) K = None"
    and first: "handle_read P R ep req s = (Json 200 v, s1)"
  shows "cacheHitRate s1 = (cacheHitRate s)((''get'', ''miss'') := cacheHitRate s (''get'', ''miss'') + 1)
    \<and> map_of (entries (redis s1)) K = Some (JSON_stringify v, now s1 + ttl_of ep * 1000)
    \<and> unavailable (redis s1) = None
    \<and> (\<forall>req' s2. cacheKey_of ep req' = Some K \<and> unavailable (redis s2) = None
          \<and> map_of (entries (redis s2)) K = map_of (entries (redis s1)) K
          \<and> now s2 < now s1 + ttl_of ep * 1000
          \<longrightarrow> handle_read P R ep req' s2
              = ((case P (JSON_stringify v) of Inl e \<Rightarrow> error_response e | Inr v' \<Rightarrow> Json 200 v'),
                 s2\<lparr>cacheHitRate :=
                      (cacheHitRate s2)((''get'', ''hit'') := cacheHitRate s2 (''get'', ''hit'') + 1)\<rparr>))
    \<and> (\<forall>req' s2. cacheKey_of ep req' = Some K \<and> unavailable (redis s2) = None
          \<and> map_of (entries (redis s2)) K = map_of (entries (redis s1)) K
          \<and> now s1 + ttl_of ep * 1000 \<le> now s2
          \<longrightarrow> cacheHitRate (snd (handle_read P R ep req' s2))
              = (cacheHitRate s2)((''get'', ''miss'') := cacheHitRate s2 (''get'', ''miss'') + 1))"
proof -
  from fresh have miss: "truthy_text (live (now s) (redis s) K) = None"
    by (simp add: truthy_text_def truthy_def)
  have counter: "cacheHitRate s1
      = (cacheHitRate s)((''get'', ''miss'') := cacheHitRate s (''get'', ''miss'') + 1)"
    using handle_read_miss_counter [OF key up miss, of P R] first by simp
  note stored = handle_read_miss_store [OF key up miss first]
  have hit: "handle_read P R ep req' s2
              = ((case P (JSON_stringify v) of Inl e \<Rightarrow> error_response e | Inr v' \<Rightarrow> Json 200 v'),
                 s2\<lparr>cacheHitRate :=
                      (cacheHitRate s2)((''get'', ''hit'') := cacheHitRate s2 (''get'', ''hit'') + 1)\<rparr>)"
    if "cacheKey_of ep req' = Some K" "unavailable (redis s2) = None"
      "map_of (entries (redis s2)) K = map_of (entries (redis s1)) K"
      "now s2 < now s1 + ttl_of ep * 1000" for req' s2
  proof -
    from that(3,4) stored have "live (now s2) (redis s2) K = Some (JSON_stringify v)"
      by (simp add: live_def)
    from handle_read_hit [OF that(1,2) this, of P R] stored show ?thesis
      by (simp add: reply_from_cache_eq)
  qed
  have expired: "cacheHitRate (snd (handle_read P R ep req' s2))
              = (cacheHitRate s2)((''get'', ''miss'') := cacheHitRate s2 (''get'', ''miss'') + 1)"
    if "cacheKey_of ep req' = Some K" "unavailable (redis s2) = None"
      "map_of (entries (redis s2)) K = map_of (entries (redis s1)) K"
      "now s1 + ttl_of ep * 1000 \<le> now s2" for req' s2
  proof -
    from that(3,4) stored have "truthy_text (live (now s2) (redis s2) K) = None"
      by (simp add: live_def truthy_text_def truthy_def)
    from handle_read_miss_counter [OF that(1,2) this] show ?thesis .
  qed
  from counter stored hit expired show ?thesis by blast
qed


text \<open>
  Claim C1, as stated, fails for a key whose document does not exist: \<open>product:42\<close> was never
  written, the first \<open>GET /api/products/42\<close> counts a miss, finds no product, answers 404 and
  stores nothing, and the same request a millisecond later counts a second miss and no hit.
\<close>

theorem missing_document_misses_again:
  "cacheKey_of GetProductById request0 = Some ''product:42''
   \<and> map_of (entries (redis state0)) ''product:42'' = None
   \<and> handle_read JSON_parse0 RegExp_error0 GetProductById request0 state0
       = (Json 404 (JObj [(''error'', JStr ''Product not found'')]),
          state0\<lparr>now := 1001, db_log := [ProductFindById ''42''],
                 cacheHitRate := (\<lambda>labels. 0)((''get'', ''miss'') := 1)\<rparr>)
   \<and> handle_read JSON_parse0 RegExp_error0 GetProductById request0
         (state0\<lparr>now := 1001, db_log := [ProductFindById ''42''],
                 cacheHitRate := (\<lambda>labels. 0)((''get'', ''miss'') := 1)\<rparr>)
       = (Json 404 (JObj [(''error'', JStr ''Product not found'')]),
          state0\<lparr>now := 1002, db_log := [ProductFindById ''42'', ProductFindById ''42''],
                 cacheHitRate := (\<lambda>labels. 0)((''get'', ''miss'') := 2)\<rparr>)"
proof -
  have key: "cacheKey_of GetProductById request0 = Some ''product:42''"
    by (simp add: request0_def)
  have never: "map_of (entries (redis state0)) ''product:42'' = None"
    by (simp add: state0_def)
  have first: "handle_read JSON_parse0 RegExp_error0 GetProductById request0 state0
       = (Json 404 (JObj [(''error'', JStr ''Product not found'')]),
          state0\<lparr>now := 1001, db_log := [ProductFindById ''42''],
                 cacheHitRate := (\<lambda>labels. 0)((''get'', ''miss'') := 1)\<rparr>)"
    by (simp add: products_by_id_def request0_def redis_get_def live_def truthy_text_def
        truthy_def state0_def db0_def db_find_one_def inc_cacheHitRate_def Let_def)
  have second: "handle_read JSON_parse0 RegExp_error0 GetProductById request0
         (state0\<lparr>now := 1001, db_log := [ProductFindById ''42''],
                 cacheHitRate := (\<lambda>labels. 0)((''get'', ''miss'') := 1)\<rparr>)
       = (Json 404 (JObj [(''error'', JStr ''Product not found'')]),
          state0\<lparr>now := 1002, db_log := [ProductFindById ''42'', ProductFindById ''42''],
                 cacheHitRate := (\<lambda>labels. 0)((''get'', ''miss'') := 2)\<rparr>)"
    by (simp add: products_by_id_def request0_def redis_get_def live_def truthy_text_def
        truthy_def state0_def db0_def db_find_one_def inc_cacheHitRate_def Let_def
        numeral_2_eq_2)
  show ?thesis
    by (rule conjI [OF key conjI [OF never conjI [OF first second]]])
qed

text \<open>
  Claim C1, amended. The handlers contain the get-or-compute sequence inline; it is stated
  for each of the five cached read endpoints, with the key and the TTL of its handler. A call
  that finds the store reachable and no unexpired entry under its key \<open>K\<close> counts one miss and
  no hit. If it answers 200 with a value \<open>v\<close>, it leaves \<open>JSON.stringify(v)\<close> under \<open>K\<close>, to
  expire \<open>ttl\<close> seconds after the \<open>setex\<close>; from then on, in every state where the store is
  reachable and still holds this entry, a call with key \<open>K\<close> before the expiry counts one
  hit, changes nothing else and answers with \<open>JSON.parse\<close> of the stored text, and a call at
  or after the expiry counts a miss again. If it answers anything else (a 404 for a missing
  document, a 500 for a failure), it leaves the store as it was, and a later call with key
  \<open>K\<close> counts a miss again. When the database answers every query, the list endpoints
  answer 200, and the endpoints by id answer 200 with the document when it exists and 404
  when it does not.
\<close>

theorem get_or_compute_miss_then_hit_or_recompute:
  assumes key: "cacheKey_of ep req = Some K"
    and up: "unavailable (redis s) = None"
    and fresh: "live (now s) (redis s) K = None"
    and run: "handle_read P R ep req s = (resp, s1)"
  shows "cacheHitRate s1 = (cacheHitRate s)((''get'', ''miss'') := cacheHitRate s (''get'', ''miss'') + 1)
    \<and> (\<forall>v. resp = Json 200 v \<longrightarrow>
          map_of (entries (redis s1)) K = Some (JSON_stringify v, now s1 + ttl_of ep * 1000)
          \<and> unavailable (redis s1) = None
          \<and> (\<forall>req' s2. cacheKey_of ep req' = Some K \<and> unavailable (redis s2) = None
                \<and> map_of (entries (redis s2)) K = map_of (entries (redis s1)) K
                \<and> now s2 < now s1 + ttl_of ep * 1000
                \<longrightarrow> handle_read P R ep req' s2
                    = ((case P (JSON_stringify v) of Inl e \<Rightarrow> error_response e | Inr v' \<Rightarrow> Json 200 v'),
                       s2\<lparr>cacheHitRate :=
                            (cacheHitRate s2)((''get'', ''hit'') := cacheHitRate s2 (''get'', ''hit'') + 1)\<rparr>))
          \<and> (\<forall>req' s2. cacheKey_of ep req' = Some K \<and> unavailable (redis s2) = None
                \<and> map_of (entries (redis s2)) K = map_of (entries (redis s1)) K
                \<and> now s1 + ttl_of ep * 1000 \<le> now s2
                \<longrightarrow> cacheHitRate (snd (handle_read P R ep req' s2))
                    = (cacheHitRate s2)((''get'', ''miss'') := cacheHitRate s2 (''get'', ''miss'') + 1)))
    \<and> ((\<forall>v. resp \<noteq> Json 200 v) \<longrightarrow>
          redis s1 = redis s
          \<and> (\<forall>req' s2. cacheKey_of ep req' = Some K \<and> unavailable (redis s2) = None
                \<and> map_of (entries (redis s2)) K = map_of (entries (redis s1)) K
                \<and> now s \<le> now s2
                \<longrightarrow> cacheHitRate (snd (handle_read P R ep req' s2))
                    = (cacheHitRate s2)((''get'', ''miss'') := cacheHitRate s2 (''get'', ''miss'') + 1)))
    \<and> (answers_all (db s) \<longrightarrow>
          (ep = GetProductById \<longrightarrow>
             resp = (case snd (find_one (db s) (ProductFindById (params_id req)) (now s)) of
                       Inr (Some product) \<Rightarrow> Json 200 (JObj product)
                     | _ \<Rightarrow> Json 404 (JObj [(''error'', JStr ''Product not found'')])))
          \<and> (ep = GetOrderById \<longrightarrow>
             resp = (case snd (find_one (db s) (OrderFindById (params_id req)) (now s)) of
                       Inr (Some order) \<Rightarrow> Json 200 (JObj order)
                     | _ \<Rightarrow> Json 404 (JObj [(''error'', JStr ''Order not found'')])))
          \<and> (ep \<noteq> GetProductById \<and> ep \<noteq> GetOrderById \<longrightarrow> (\<exists>v. resp = Json 200 v)))"
  (is "?counter \<and> (\<forall>v. _ \<longrightarrow> ?stored v) \<and> (_ \<longrightarrow> ?unstored) \<and> (_ \<longrightarrow> ?answers)")
proof -
  from fresh have miss: "truthy_text (live (now s) (redis s) K) = None"
    by (simp add: truthy_text_def truthy_def)
  have resp: "fst (handle_read P R ep req s) = resp" and s1: "snd (handle_read P R ep req s) = s1"
    using run by simp_all
  have counter: ?counter
    using handle_read_miss_counter [OF key up miss, of P R] s1 by simp
  have stored: "?stored v" if "resp = Json 200 v" for v
  proof -
    from run that have "handle_read P R ep req s = (Json 200 v, s1)"
      by simp
    from stored_value_hits_until_expiry [OF key up fresh this] show ?thesis
      by (rule conjunct2)
  qed
  have unstored: ?unstored if none: "\<forall>v. resp \<noteq> Json 200 v"
  proof -
    from none resp have "\<forall>v. fst (handle_read P R ep req s) \<noteq> Json 200 v"
      by simp
    from handle_read_miss_unstored [OF key up miss this] s1 have same: "redis s1 = redis s"
      by simp
    have again: "cacheHitRate (snd (handle_read P R ep req' s2))
                    = (cacheHitRate s2)((''get'', ''miss'') := cacheHitRate s2 (''get'', ''miss'') + 1)"
      if "cacheKey_of ep req' = Some K" "unavailable (redis s2) = None"
        "map_of (entries (redis s2)) K = map_of (entries (redis s1)) K" "now s \<le> now s2"
      for req' s2
    proof -
      from that(3,4) same fresh have "truthy_text (live (now s2) (redis s2) K) = None"
        by (auto simp: live_def truthy_text_def truthy_def split: option.splits if_splits)
      from handle_read_miss_counter [OF that(1,2) this] show ?thesis .
    qed
    from same again show ?thesis
      by blast
  qed
  have answers: ?answers if "answers_all (db s)"
    unfolding resp [symmetric] by (rule handle_read_miss_answers [OF key up miss that])
  have a: "\<forall>v. resp = Json 200 v \<longrightarrow> ?stored v"
    using stored by blast
  have b: "(\<forall>v. resp \<noteq> Json 200 v) \<longrightarrow> ?unstored"
    using unstored by blast
  have c: "answers_all (db s) \<longrightarrow> ?answers"
    using answers by blast
  show ?thesis
    by (rule conjI [OF counter conjI [OF a conjI [OF b c]]])
qed


theorem get_or_compute_miss_then_hit_or_recompute_witness:
  "cacheKey_of GetUsers request_page2 = Some ''users:2:10''
   \<and> unavailable (redis state0) = None
   \<and> live (now state0) (redis state0) ''users:2:10'' = None
   \<and> handle_read JSON_parse0 RegExp_error0 GetUsers request_page2 state0 = (Json 200 users0, state1)
   \<and> cacheHitRate state1 (''get'', ''miss'') = 1
   \<and> cacheHitRate state1 (''get'', ''hit'') = 0
   \<and> map_of (entries (redis state1)) ''users:2:10'' = Some (JSON_stringify users0, 61017)
   \<and> handle_read JSON_parse0 RegExp_error0 GetUsers request_page2 (state1\<lparr>now := 30000\<rparr>)
       = (Json 200 users0,
          state1\<lparr>now := 30000, cacheHitRate := (cacheHitRate state1)((''get'', ''hit'') := 1)\<rparr>)
   \<and> cacheHitRate (snd (handle_read JSON_parse0 RegExp_error0 GetUsers request_page2
                         (state1\<lparr>now := 61017\<rparr>))) (''get'', ''miss'') = 2
   \<and> cacheKey_of GetProductById request0 = Some ''product:42''
   \<and> unavailable (redis state_shop) = None
   \<and> live (now state_shop) (redis state_shop) ''product:42'' = None
   \<and> answers_all (db state_shop)
   \<and> fst (handle_read JSON_parse0 RegExp_error0 GetProductById request0 state_shop)
       = Json 200 (JObj lamp)
   \<and> map_of (entries (redis (snd (handle_read JSON_parse0 RegExp_error0 GetProductById request0
                                      state_shop)))) ''product:42''
       = Some (JSON_stringify (JObj lamp),
               now (snd (handle_read JSON_parse0 RegExp_error0 GetProductById request0 state_shop))
                 + 600000)
   \<and> live (now state0) (redis state0) ''product:42'' = None
   \<and> answers_all (db state0)
   \<and> fst (handle_read JSON_parse0 RegExp_error0 GetProductById request0 state0)
       = Json 404 (JObj [(''error'', JStr ''Product not found'')])
   \<and> redis (snd (handle_read JSON_parse0 RegExp_error0 GetProductById request0 state0))
       = redis state0"
proof -
  have page: "num_or (parseInt_param (query request_page2 ''page'')) 1 = 2
      \<and> num_or (parseInt_param (query request_page2 ''limit'')) 10 = 10"
    by (simp add: request_page2_def parseInt_param_def parseInt_def num_or_def
        is_space_def in_radix_def digit_of_def digits_value_def Let_def)
  have key: "cacheKey_of GetUsers request_page2 = Some ''users:2:10''"
    by (simp add: page users_cacheKey_def show_int_def digit_char_def)
  have up: "unavailable (redis state0) = None"
    by (simp add: state0_def)
  have fresh: "live (now state0) (redis state0) ''users:2:10'' = None"
    by (simp add: state0_def live_def)
  have first: "handle_read JSON_parse0 RegExp_error0 GetUsers request_page2 state0
                 = (Json 200 users0, state1)"
    using key
    by (simp add: page digit_char_def users_list_def redis_get_def live_def truthy_text_def
        truthy_def state0_def state1_def db0_def db_find_def db_count_def inc_cacheHitRate_def
        store_and_reply_def redis_setex_def observe_dbQueryDuration_def set_member_def
        users0_def Let_def)
  note t = get_or_compute_miss_then_hit_or_recompute [OF key up fresh first]
  note on200 = t [THEN conjunct2, THEN conjunct1, rule_format, OF refl]
  have now1: "now state1 = 1017" and parse: "JSON_parse0 (JSON_stringify users0) = Inr users0"
    and hit0: "cacheHitRate state1 (''get'', ''hit'') = 0"
    and miss1: "cacheHitRate state1 (''get'', ''miss'') = 1"
    by (simp_all add: state1_def state0_def JSON_parse0_def users0_def)
  from on200 have stored: "map_of (entries (redis state1)) ''users:2:10''
                         = Some (JSON_stringify users0, 61017)"
    by (simp add: now1)
  from on200 have up1: "unavailable (redis state1) = None"
    by (rule conjunct2 [THEN conjunct1])
  have second: "handle_read JSON_parse0 RegExp_error0 GetUsers request_page2 (state1\<lparr>now := 30000\<rparr>)
       = (Json 200 users0,
          state1\<lparr>now := 30000, cacheHitRate := (cacheHitRate state1)((''get'', ''hit'') := 1)\<rparr>)"
    using on200 [THEN conjunct2, THEN conjunct2, THEN conjunct1, rule_format,
        of request_page2 "state1\<lparr>now := 30000\<rparr>"] key up1
    by (simp add: now1 parse hit0)
  have third: "cacheHitRate (snd (handle_read JSON_parse0 RegExp_error0 GetUsers request_page2
                         (state1\<lparr>now := 61017\<rparr>))) (''get'', ''miss'') = 2"
    using on200 [THEN conjunct2, THEN conjunct2, THEN conjunct2, rule_format,
        of request_page2 "state1\<lparr>now := 61017\<rparr>"] key up1
    by (simp add: now1 miss1)
  have keyP: "cacheKey_of GetProductById request0 = Some ''product:42''"
    by (simp add: request0_def)
  have upS: "unavailable (redis state_shop) = None"
    and freshS: "live (now state_shop) (redis state_shop) ''product:42'' = None"
    and fresh0: "live (now state0) (redis state0) ''product:42'' = None"
    by (simp_all add: state_shop_def state0_def live_def)
  have ansS: "answers_all (db state_shop)" and ans0: "answers_all (db state0)"
    by (simp_all add: answers_all_def state_shop_def db_shop_def state0_def db0_def)
  have runS: "handle_read JSON_parse0 RegExp_error0 GetProductById request0 state_shop
      = (fst (handle_read JSON_parse0 RegExp_error0 GetProductById request0 state_shop),
         snd (handle_read JSON_parse0 RegExp_error0 GetProductById request0 state_shop))"
    by simp
  note tS = get_or_compute_miss_then_hit_or_recompute [OF keyP upS freshS runS]
  from tS [THEN conjunct2, THEN conjunct2, THEN conjunct2, rule_format, OF ansS]
  have found: "fst (handle_read JSON_parse0 RegExp_error0 GetProductById request0 state_shop)
       = Json 200 (JObj lamp)"
    by (simp add: state_shop_def db_shop_def request0_def)
  from tS [THEN conjunct2, THEN conjunct1, rule_format, OF found, THEN conjunct1]
  have storedS: "map_of (entries (redis (snd (handle_read JSON_parse0 RegExp_error0 GetProductById request0
                                      state_shop)))) ''product:42''
       = Some (JSON_stringify (JObj lamp),
               now (snd (handle_read JSON_parse0 RegExp_error0 GetProductById request0 state_shop))
                 + 600000)"
    by simp
  have run0: "handle_read JSON_parse0 RegExp_error0 GetProductById request0 state0
      = (fst (handle_read JSON_parse0 RegExp_error0 GetProductById request0 state0),
         snd (handle_read JSON_parse0 RegExp_error0 GetProductById request0 state0))"
    by simp
  note t0 = get_or_compute_miss_then_hit_or_recompute [OF keyP up fresh0 run0]
  from t0 [THEN conjunct2, THEN conjunct2, THEN conjunct2, rule_format, OF ans0]
  have missing: "fst (handle_read JSON_parse0 RegExp_error0 GetProductById request0 state0)
       = Json 404 (JObj [(''error'', JStr ''Product not found'')])"
    by (simp add: state0_def db0_def request0_def)
  then have "\<forall>v. fst (handle_read JSON_parse0 RegExp_error0 GetProductById request0 state0) \<noteq> Json 200 v"
    by simp
  from t0 [THEN conjunct2, THEN conjunct2, THEN conjunct1, THEN mp, OF this]
  have unstored: "redis (snd (handle_read JSON_parse0 RegExp_error0 GetProductById request0 state0))
       = redis state0"
    by (rule conjunct1)
  show ?thesis
    by (rule conjI [OF key conjI [OF up conjI [OF fresh conjI [OF first conjI [OF miss1
          conjI [OF hit0 conjI [OF stored conjI [OF second conjI [OF third conjI [OF keyP
          conjI [OF upS conjI [OF freshS conjI [OF ansS conjI [OF found conjI [OF storedS
          conjI [OF fresh0 conjI [OF ans0 conjI [OF missing unstored]]]]]]]]]]]]]]]]]])
qed

section \<open>What a hit changes\<close>

text \<open>
  Claim C10. In each of the five cached read handlers, when the store is reachable and holds
  an unexpired, non-empty value under the handler's key, the state after the call is the
  state before it with the counter \<open>cache_operations_total{get, hit}\<close> increased by one:
  no query is sent to the database, no sample is added to \<open>db_query_duration_seconds\<close>, and
  the store and the clock are as they were.
\<close>

theorem cache_hit_changes_only_hit_counter:
  assumes key: "cacheKey_of ep req = Some K"
    and up: "unavailable (redis s) = None"
    and cached: "live (now s) (redis s) K = Some c"
    and truthy: "c \<noteq> []"
  shows "snd (handle_read P R ep req s)
           = s\<lparr>cacheHitRate :=
                 (cacheHitRate s)((''get'', ''hit'') := cacheHitRate s (''get'', ''hit'') + 1)\<rparr>
    \<and> db_log (snd (handle_read P R ep req s)) = db_log s
    \<and> dbQueryDuration (snd (handle_read P R ep req s)) = dbQueryDuration s
    \<and> redis (snd (handle_read P R ep req s)) = redis s
    \<and> now (snd (handle_read P R ep req s)) = now s"
  using handle_read_hit [OF key up cached truthy, of P R]
  by (simp add: reply_from_cache_eq)

theorem cache_hit_changes_only_hit_counter_witness:
  "cacheKey_of GetUsers request0 = Some ''users:1:10''
   \<and> unavailable (redis state0) = None
   \<and> live (now state0) (redis state0) ''users:1:10'' = Some ''[]''
   \<and> ''[]'' \<noteq> ([] :: string)
   \<and> snd (handle_read JSON_parse0 RegExp_error0 GetUsers request0 state0)
       = state0\<lparr>cacheHitRate := (\<lambda>labels. 0)((''get'', ''hit'') := 1)\<rparr>
   \<and> db_log (snd (handle_read JSON_parse0 RegExp_error0 GetUsers request0 state0)) = []"
proof -
  have page: "num_or (parseInt_param (query request0 ''page'')) 1 = 1
      \<and> num_or (parseInt_param (query request0 ''limit'')) 10 = 10"
    by (simp add: request0_def parseInt_param_def parseInt_def num_or_def
        is_space_def in_radix_def digit_of_def digits_value_def Let_def)
  have key: "cacheKey_of GetUsers request0 = Some ''users:1:10''"
    by (simp add: page users_cacheKey_def show_int_def digit_char_def)
  have up: "unavailable (redis state0) = None"
    by (simp add: state0_def)
  have cached: "live (now state0) (redis state0) ''users:1:10'' = Some ''[]''"
    by (simp add: state0_def live_def)
  have truthy: "''[]'' \<noteq> ([] :: string)"
    by simp
  note t = cache_hit_changes_only_hit_counter [OF key up cached truthy,
      of JSON_parse0 RegExp_error0]
  have c0: "cacheHitRate state0 = (\<lambda>labels. 0)" and l0: "db_log state0 = []"
    by (simp_all add: state0_def)
  from t have after: "snd (handle_read JSON_parse0 RegExp_error0 GetUsers request0 state0)
       = state0\<lparr>cacheHitRate := (\<lambda>labels. 0)((''get'', ''hit'') := 1)\<rparr>"
    by (simp add: c0)
  from t have log: "db_log (snd (handle_read JSON_parse0 RegExp_error0 GetUsers request0 state0)) = []"
    by (simp add: l0)
  from key up cached truthy after log show ?thesis by blast
qed

section \<open>Which read endpoints consult the store\<close>

lemma users_search_effect:
  "redis (snd (users_search R req s)) = redis s
   \<and> cacheHitRate (snd (users_search R req s)) = cacheHitRate s
   \<and> ((case query req ''q'' of None \<Rightarrow> None | Some p \<Rightarrow> R p) = None
        \<longrightarrow> db_log (snd (users_search R req s)) = db_log s @ [UserSearch (query req ''q'')])"
proof (cases "case query req ''q'' of None \<Rightarrow> None | Some p \<Rightarrow> R p")
  case (Some m)
  then show ?thesis by (simp add: users_search_def Let_def)
next
  case None
  obtain r1 s1 where f: "db_find (UserSearch (query req ''q'')) s = (r1, s1)"
    by (cases "db_find (UserSearch (query req ''q'')) s")
  then have log: "db_log s1 = db_log s @ [UserSearch (query req ''q'')]"
    by (auto simp: db_find_def split: prod.splits)
  have "snd (users_search R req s)
          = (case r1 of Inl e \<Rightarrow> s1 | Inr us \<Rightarrow> observe_dbQueryDuration ''search'' ''users'' (now s) s1)"
    using None f by (simp add: users_search_def Let_def split: sum.splits)
  with db_find_frame [OF f] log None show ?thesis
    by (simp add: observe_dbQueryDuration_def split: sum.splits)
qed

lemma users_search_rejects:
  "(case query req ''q'' of None \<Rightarrow> None | Some p \<Rightarrow> R p) = Some m
   \<Longrightarrow> users_search R req s = (Json 500 (JObj [(''error'', JStr m)]), s)"
  by (simp add: users_search_def Let_def)

text \<open>
  Claim C5, as stated, fails at the user search: \<open>GET /api/users/search?q=ann\<close> has no cache
  key, and the same search issued twice in a row sends its query to the database both times,
  counts no hit and leaves the store as it was.
\<close>

theorem search_queries_database_on_every_call:
  "cacheKey_of SearchUsers request_search = None
   \<and> fst (handle_read JSON_parse0 RegExp_error0 SearchUsers request_search state0)
       = Json 200 (JArr [JObj [(''username'', JStr ''ann'')]])
   \<and> db_log (snd (handle_read JSON_parse0 RegExp_error0 SearchUsers request_search state0))
       = [UserSearch (Some ''ann'')]
   \<and> fst (handle_read JSON_parse0 RegExp_error0 SearchUsers request_search
             (snd (handle_read JSON_parse0 RegExp_error0 SearchUsers request_search state0)))
       = Json 200 (JArr [JObj [(''username'', JStr ''ann'')]])
   \<and> db_log (snd (handle_read JSON_parse0 RegExp_error0 SearchUsers request_search
             (snd (handle_read JSON_parse0 RegExp_error0 SearchUsers request_search state0))))
       = [UserSearch (Some ''ann''), UserSearch (Some ''ann'')]
   \<and> cacheHitRate (snd (handle_read JSON_parse0 RegExp_error0 SearchUsers request_search
             (snd (handle_read JSON_parse0 RegExp_error0 SearchUsers request_search state0))))
         (''get'', ''hit'') = 0
   \<and> redis (snd (handle_read JSON_parse0 RegExp_error0 SearchUsers request_search
             (snd (handle_read JSON_parse0 RegExp_error0 SearchUsers request_search state0))))
       = redis state0"
proof -
  have first: "handle_read JSON_parse0 RegExp_error0 SearchUsers request_search state0
      = (Json 200 (JArr [JObj [(''username'', JStr ''ann'')]]),
         state0\<lparr>now := 1015, db_log := [UserSearch (Some ''ann'')],
                dbQueryDuration := [([''search'', ''users''], 15 / 1000)]\<rparr>)"
    by (simp add: users_search_def request_search_def RegExp_error0_def state0_def db0_def
        db_find_def observe_dbQueryDuration_def Let_def)
  have second: "handle_read JSON_parse0 RegExp_error0 SearchUsers request_search
         (state0\<lparr>now := 1015, db_log := [UserSearch (Some ''ann'')],
                dbQueryDuration := [([''search'', ''users''], 15 / 1000)]\<rparr>)
      = (Json 200 (JArr [JObj [(''username'', JStr ''ann'')]]),
         state0\<lparr>now := 1030, db_log := [UserSearch (Some ''ann''), UserSearch (Some ''ann'')],
                dbQueryDuration := [([''search'', ''users''], 15 / 1000),
                                    ([''search'', ''users''], 15 / 1000)]\<rparr>)"
    by (simp add: users_search_def request_search_def RegExp_error0_def state0_def db0_def
        db_find_def observe_dbQueryDuration_def Let_def)
  have c0: "cacheHitRate state0 (''get'', ''hit'') = 0"
    by (simp add: state0_def)
  show ?thesis
    unfolding first snd_conv fst_conv second
    by (simp add: c0)
qed

text \<open>
  Claim C5, amended. Every read endpoint other than the user search has a cache key and its
  handler consults the store first: when the store is reachable and holds an unexpired,
  non-empty value under that key, the answer is \<open>JSON.parse\<close> of the stored text, one hit is
  counted and no query is sent to the database. The user search has no key and never reads
  or writes the store or the hit/miss counter. When its pattern is missing or is a regular
  expression it sends its query to the database, on every call; when \<open>new RegExp\<close> rejects
  the pattern it answers 500 with the message of the \<open>SyntaxError\<close>, sends no query and
  changes nothing.
\<close>

theorem read_endpoints_consult_cache_except_search:
  "(ep \<noteq> SearchUsers \<longrightarrow>
      (\<exists>K. cacheKey_of ep req = Some K
         \<and> (unavailable (redis s) = None \<and> live (now s) (redis s) K = Some c \<and> c \<noteq> []
              \<longrightarrow> fst (handle_read P R ep req s)
                    = (case P c of Inl e \<Rightarrow> error_response e | Inr v \<Rightarrow> Json 200 v)
                \<and> cacheHitRate (snd (handle_read P R ep req s)) (''get'', ''hit'')
                    = cacheHitRate s (''get'', ''hit'') + 1
                \<and> db_log (snd (handle_read P R ep req s)) = db_log s)))
   \<and> cacheKey_of SearchUsers req = None
   \<and> redis (snd (handle_read P R SearchUsers req s)) = redis s
   \<and> cacheHitRate (snd (handle_read P R SearchUsers req s)) = cacheHitRate s
   \<and> ((case query req ''q'' of None \<Rightarrow> None | Some p \<Rightarrow> R p) = None
        \<longrightarrow> db_log (snd (handle_read P R SearchUsers req s)) = db_log s @ [UserSearch (query req ''q'')])
   \<and> (\<forall>m. (case query req ''q'' of None \<Rightarrow> None | Some p \<Rightarrow> R p) = Some m
        \<longrightarrow> handle_read P R SearchUsers req s = (Json 500 (JObj [(''error'', JStr m)]), s))"
  (is "(_ \<longrightarrow> ?cached) \<and> ?nokey \<and> ?store \<and> ?counter \<and> ?queries \<and> ?rejects")
proof -
  have cached: ?cached if "ep \<noteq> SearchUsers"
  proof -
    from that obtain K where K: "cacheKey_of ep req = Some K"
      by (cases ep) simp_all
    have h: "fst (handle_read P R ep req s)
                    = (case P c of Inl e \<Rightarrow> error_response e | Inr v \<Rightarrow> Json 200 v)
                \<and> cacheHitRate (snd (handle_read P R ep req s)) (''get'', ''hit'')
                    = cacheHitRate s (''get'', ''hit'') + 1
                \<and> db_log (snd (handle_read P R ep req s)) = db_log s" (is ?hit)
      if "unavailable (redis s) = None" "live (now s) (redis s) K = Some c" "c \<noteq> []"
      using handle_read_hit [OF K that, of P R] by (simp add: reply_from_cache_eq)
    show ?thesis
    proof (rule exI [of _ K], rule conjI [OF K], rule impI)
      assume "unavailable (redis s) = None \<and> live (now s) (redis s) K = Some c \<and> c \<noteq> []"
      then have "unavailable (redis s) = None" "live (now s) (redis s) K = Some c" "c \<noteq> []"
        by simp_all
      then show ?hit by (rule h)
    qed
  qed
  have nokey: ?nokey
    by simp
  have store: ?store and counter: ?counter and queries: ?queries
    using users_search_effect [of R req s] by simp_all
  have cached': "ep \<noteq> SearchUsers \<longrightarrow> ?cached"
  proof
    assume "ep \<noteq> SearchUsers"
    then show ?cached by (rule cached)
  qed
  have rejects: ?rejects
  proof (intro allI impI)
    fix m
    assume "(case query req ''q'' of None \<Rightarrow> None | Some p \<Rightarrow> R p) = Some m"
    from users_search_rejects [OF this]
    show "handle_read P R SearchUsers req s = (Json 500 (JObj [(''error'', JStr m)]), s)"
      by simp
  qed
  show ?thesis
    by (rule conjI [OF cached' conjI [OF nokey conjI [OF store conjI [OF counter
          conjI [OF queries rejects]]]]])
qed

theorem read_endpoints_consult_cache_except_search_witness:
  "GetProducts \<noteq> SearchUsers
   \<and> cacheKey_of GetProducts request0 = Some ''products:all:0:max:1:20''
   \<and> unavailable (redis state0) = None
   \<and> live (now state0) (redis state0) ''products:all:0:max:1:20'' = Some ''[]''
   \<and> fst (handle_read JSON_parse0 RegExp_error0 GetProducts request0 state0) = Json 200 (JArr [])
   \<and> cacheHitRate (snd (handle_read JSON_parse0 RegExp_error0 GetProducts request0 state0))
        (''get'', ''hit'') = 1
   \<and> db_log (snd (handle_read JSON_parse0 RegExp_error0 GetProducts request0 state0)) = []
   \<and> db_log (snd (handle_read JSON_parse0 RegExp_error0 SearchUsers request0 state0))
       = [UserSearch None]
   \<and> handle_read JSON_parse0 RegExp_error0 SearchUsers request_bad_pattern state0
       = (Json 500 (JObj [(''error'', JStr ''Invalid regular expression: /(/: Unterminated group'')]),
          state0)"
proof -
  have key: "cacheKey_of GetProducts request0 = Some ''products:all:0:max:1:20''"
    by (simp add: products_cacheKey_def request0_def str_or_def param_default_def)
  have up: "unavailable (redis state0) = None"
    and cached: "live (now state0) (redis state0) ''products:all:0:max:1:20'' = Some ''[]''"
    and c0: "cacheHitRate state0 (''get'', ''hit'') = 0" and l0: "db_log state0 = []"
    by (simp_all add: state0_def live_def)
  have parse: "JSON_parse0 ''[]'' = Inr (JArr [])"
    by (simp add: JSON_parse0_def)
  have q: "(case query request0 ''q'' of None \<Rightarrow> None | Some p \<Rightarrow> RegExp_error0 p) = None"
     and q': "query request0 ''q'' = None"
    by (simp_all add: request0_def)
  note t = read_endpoints_consult_cache_except_search [of GetProducts request0 state0 "''[]''"
      JSON_parse0 RegExp_error0]
  from t key up cached have hit:
    "fst (handle_read JSON_parse0 RegExp_error0 GetProducts request0 state0) = Json 200 (JArr [])
     \<and> cacheHitRate (snd (handle_read JSON_parse0 RegExp_error0 GetProducts request0 state0))
        (''get'', ''hit'') = 1
     \<and> db_log (snd (handle_read JSON_parse0 RegExp_error0 GetProducts request0 state0)) = []"
    by (simp add: parse c0 l0)
  from t q have search: "db_log (snd (handle_read JSON_parse0 RegExp_error0 SearchUsers request0 state0))
       = [UserSearch None]"
    by (simp add: l0 q')
  have bad: "(case query request_bad_pattern ''q'' of None \<Rightarrow> None | Some p \<Rightarrow> RegExp_error0 p)
               = Some ''Invalid regular expression: /(/: Unterminated group''"
    by (simp add: request_bad_pattern_def RegExp_error0_def)
  note t' = read_endpoints_consult_cache_except_search [of GetProducts request_bad_pattern state0
      "''[]''" JSON_parse0 RegExp_error0]
  from t' [THEN conjunct2, THEN conjunct2, THEN conjunct2, THEN conjunct2, THEN conjunct2,
      rule_format, OF bad]
  have rejected: "handle_read JSON_parse0 RegExp_error0 SearchUsers request_bad_pattern state0
       = (Json 500 (JObj [(''error'', JStr ''Invalid regular expression: /(/: Unterminated group'')]),
          state0)" .
  have nosearch: "GetProducts \<noteq> SearchUsers"
    by simp
  from hit have h1: "fst (handle_read JSON_parse0 RegExp_error0 GetProducts request0 state0) = Json 200 (JArr [])"
    and h2: "cacheHitRate (snd (handle_read JSON_parse0 RegExp_error0 GetProducts request0 state0))
        (''get'', ''hit'') = 1"
    and h3: "db_log (snd (handle_read JSON_parse0 RegExp_error0 GetProducts request0 state0)) = []"
    by simp_all
  show ?thesis
    by (rule conjI [OF nosearch conjI [OF key conjI [OF up conjI [OF cached conjI [OF h1
          conjI [OF h2 conjI [OF h3 conjI [OF search rejected]]]]]]]])
qed

section \<open>The store cannot be reached\<close>

lemma store_unavailable_500:
  assumes "cacheKey_of ep req = Some K"
    and "unavailable (redis s) = Some m"
  shows "handle_read P R ep req s = (Json 500 (JObj [(''error'', JStr m)]), s)"
proof (cases ep)
  case GetUsers
  with assms(2) show ?thesis by (simp add: users_list_def redis_get_def Let_def)
next
  case SearchUsers
  with assms(1) show ?thesis by simp
next
  case GetProducts
  with assms(2) show ?thesis by (simp add: products_list_def redis_get_def Let_def)
next
  case GetProductById
  with assms(2) show ?thesis by (simp add: products_by_id_def redis_get_def Let_def)
next
  case GetOrders
  with assms(2) show ?thesis by (simp add: orders_list_def redis_get_def Let_def)
next
  case GetOrderById
  with assms(2) show ?thesis by (simp add: orders_by_id_def redis_get_def Let_def)
qed

text \<open>
  Claim C8, as stated, fails: the handlers have one \<open>catch\<close> for everything, so a store that
  cannot be reached and a database that cannot be reached are answered alike. With the same
  message, \<open>GET /api/products?page=01\<close> gets the same status and body when the store is down
  as when the store is up and the database rejects the query; and with the store down nothing
  is computed, so the handler does not fail open.
\<close>

theorem store_failure_answered_like_database_failure:
  "unavailable (redis state_down) = Some ''connect ETIMEDOUT''
   \<and> unavailable (redis state_db_down) = None
   \<and> fst (handle_read JSON_parse0 RegExp_error0 GetProducts request_page01 state_down)
       = Json 500 (JObj [(''error'', JStr ''connect ETIMEDOUT'')])
   \<and> fst (handle_read JSON_parse0 RegExp_error0 GetProducts request_page01 state_db_down)
       = Json 500 (JObj [(''error'', JStr ''connect ETIMEDOUT'')])
   \<and> db_log (snd (handle_read JSON_parse0 RegExp_error0 GetProducts request_page01 state_down)) = []"
proof -
  have down: "unavailable (redis state_down) = Some ''connect ETIMEDOUT''"
    and up: "unavailable (redis state_db_down) = None"
    by (simp_all add: state_down_def state_db_down_def state0_def)
  have key: "products_cacheKey request_page01 = ''products:all:0:max:01:20''"
    by (simp add: products_cacheKey_def request_page01_def str_or_def param_default_def)
  have store: "handle_read JSON_parse0 RegExp_error0 GetProducts request_page01 state_down
      = (Json 500 (JObj [(''error'', JStr ''connect ETIMEDOUT'')]), state_down)"
    using down by (simp add: products_list_def redis_get_def Let_def)
  have database: "fst (handle_read JSON_parse0 RegExp_error0 GetProducts request_page01 state_db_down)
       = Json 500 (JObj [(''error'', JStr ''connect ETIMEDOUT'')])"
    by (simp add: products_list_def key redis_get_def live_def truthy_text_def truthy_def
        state_db_down_def state0_def db_rejecting_def db_find_def inc_cacheHitRate_def Let_def)
  have log: "db_log state_down = []"
    by (simp add: state_down_def state0_def)
  from down up store database log show ?thesis
    by simp
qed

text \<open>
  Claim C8, amended. In each of the five cached read handlers, a store that cannot be reached
  is not taken for a miss: the rejection of \<open>redis.get\<close> reaches the handler's \<open>catch\<close>, the
  answer is a 500 that carries the store's message, and the state is unchanged, so that no
  miss is counted and nothing is computed. The failure is not told apart from others: when
  the store is reachable, the key has no value and the database rejects its queries with a
  message, the answer is the same 500 with that message.
\<close>

theorem store_unavailable_answers_500_like_any_failure:
  "(cacheKey_of ep req = Some K \<and> unavailable (redis s) = Some m
      \<longrightarrow> handle_read P R ep req s = (Json 500 (JObj [(''error'', JStr m)]), s))
   \<and> (cacheKey_of ep req = Some K \<and> unavailable (redis s) = None
        \<and> truthy_text (live (now s) (redis s) K) = None
        \<and> (\<forall>q t. snd (find_docs (db s) q t) = Inl (Error m))
        \<and> (\<forall>q t. snd (find_one (db s) q t) = Inl (Error m))
      \<longrightarrow> fst (handle_read P R ep req s) = Json 500 (JObj [(''error'', JStr m)]))"
proof (intro conjI impI)
  assume "cacheKey_of ep req = Some K \<and> unavailable (redis s) = Some m"
  then have "cacheKey_of ep req = Some K" "unavailable (redis s) = Some m"
    by simp_all
  then show "handle_read P R ep req s = (Json 500 (JObj [(''error'', JStr m)]), s)"
    by (rule store_unavailable_500)
next
  assume a: "cacheKey_of ep req = Some K \<and> unavailable (redis s) = None
        \<and> truthy_text (live (now s) (redis s) K) = None
        \<and> (\<forall>q t. snd (find_docs (db s) q t) = Inl (Error m))
        \<and> (\<forall>q t. snd (find_one (db s) q t) = Inl (Error m))"
  then have "cacheKey_of ep req = Some K" "unavailable (redis s) = None"
      "truthy_text (live (now s) (redis s) K) = None"
      "\<forall>q t. snd (find_docs (db s) q t) = Inl (Error m)"
      "\<forall>q t. snd (find_one (db s) q t) = Inl (Error m)"
    by simp_all
  from handle_read_miss_rejected [OF this]
  show "fst (handle_read P R ep req s) = Json 500 (JObj [(''error'', JStr m)])"
    by simp
qed

theorem store_unavailable_answers_500_like_any_failure_witness:
  "cacheKey_of GetProducts request_page01 = Some ''products:all:0:max:01:20''
   \<and> unavailable (redis state_down) = Some ''connect ETIMEDOUT''
   \<and> handle_read JSON_parse0 RegExp_error0 GetProducts request_page01 state_down
       = (Json 500 (JObj [(''error'', JStr ''connect ETIMEDOUT'')]), state_down)
   \<and> cacheHitRate state_down (''get'', ''miss'') = 0 \<and> db_log state_down = []
   \<and> unavailable (redis state_db_down) = None
   \<and> truthy_text (live (now state_db_down) (redis state_db_down) ''products:all:0:max:01:20'') = None
   \<and> (\<forall>q t. snd (find_docs (db state_db_down) q t) = Inl (Error ''connect ETIMEDOUT''))
   \<and> (\<forall>q t. snd (find_one (db state_db_down) q t) = Inl (Error ''connect ETIMEDOUT''))
   \<and> fst (handle_read JSON_parse0 RegExp_error0 GetProducts request_page01 state_db_down)
       = Json 500 (JObj [(''error'', JStr ''connect ETIMEDOUT'')])"
proof -
  have key: "cacheKey_of GetProducts request_page01 = Some ''products:all:0:max:01:20''"
    by (simp add: products_cacheKey_def request_page01_def str_or_def param_default_def)
  have down: "unavailable (redis state_down) = Some ''connect ETIMEDOUT''"
    by (simp add: state_down_def)
  have nomiss: "cacheHitRate state_down (''get'', ''miss'') = 0" and nolog: "db_log state_down = []"
    by (simp_all add: state_down_def state0_def)
  have up: "unavailable (redis state_db_down) = None"
    and miss: "truthy_text (live (now state_db_down) (redis state_db_down) ''products:all:0:max:01:20'') = None"
    and docs: "\<forall>q t. snd (find_docs (db state_db_down) q t) = Inl (Error ''connect ETIMEDOUT'')"
    and one: "\<forall>q t. snd (find_one (db state_db_down) q t) = Inl (Error ''connect ETIMEDOUT'')"
    by (simp_all add: state_db_down_def state0_def db_rejecting_def live_def truthy_text_def
        truthy_def)
  note a = store_unavailable_answers_500_like_any_failure [THEN conjunct1, THEN mp,
      OF conjI [OF key down], of JSON_parse0 RegExp_error0]
  note b = store_unavailable_answers_500_like_any_failure [THEN conjunct2, THEN mp,
      OF conjI [OF key conjI [OF up conjI [OF miss conjI [OF docs one]]]],
      of JSON_parse0 RegExp_error0]
  show ?thesis
    by (rule conjI [OF key conjI [OF down conjI [OF a conjI [OF nomiss conjI [OF nolog conjI [OF up
          conjI [OF miss conjI [OF docs conjI [OF one b]]]]]]]]])
qed

section \<open>Invalidation by prefix\<close>

lemma glob_star: "glob ''*'' s"
  by (induction s) simp_all

lemma glob_literal_prefix:
  "literal p \<Longrightarrow> glob (p @ ''*'') s = prefix p s"
proof (induction p arbitrary: s)
  case Nil
  then show ?case using glob_star by simp
next
  case (Cons a p)
  then have lit: "literal p" and a: "a \<noteq> CHR ''*''" "a \<noteq> CHR ''?''" "a \<noteq> CHR ''[''" "a \<noteq> backslash"
    by (simp_all add: literal_def)
  show ?case
  proof (cases s)
    case Nil
    with a show ?thesis by simp
  next
    case (Cons c cs)
    with a Cons.IH [OF lit, of cs] show ?thesis by auto
  qed
qed

lemma map_of_filter_fst:
  "map_of (filter (\<lambda>e. P (fst e)) es) k = (if P k then map_of es k else None)"
  by (induction es) auto

lemma live_expired_stays:
  "live t r k = None \<Longrightarrow> t \<le> t' \<Longrightarrow> live t' r k = None"
  by (auto simp: live_def split: option.splits if_splits)

lemma live_in_keys:
  "live t r k \<noteq> None \<Longrightarrow> k \<in> set (map fst (entries r))"
  by (auto simp: live_def split: option.splits dest: map_of_SomeD intro: rev_image_eqI)

text \<open>
  Claim C2. The write handlers invalidate with the patterns \<open>users:*\<close>, \<open>products:*\<close> and
  \<open>orders:*\<close>: a prefix without pattern operators, followed by \<open>*\<close>. For every such prefix
  \<open>p\<close>, when the store can be reached the invalidation succeeds and changes nothing but
  the store; afterwards no key that starts with \<open>p\<close> has a value, now or later, and
  every key that does not start with \<open>p\<close> has the entry it had.
\<close>

theorem invalidate_prefix_exact:
  assumes "literal p" and "unavailable (redis s) = None"
  shows "\<exists>s'. invalidate (p @ ''*'') s = Inr s'
           \<and> s' = s\<lparr>redis := redis s'\<rparr>
           \<and> unavailable (redis s') = None
           \<and> (\<forall>k. prefix p k \<longrightarrow> (\<forall>t \<ge> now s. live t (redis s') k = None))
           \<and> (\<forall>k. \<not> prefix p k \<longrightarrow> map_of (entries (redis s')) k = map_of (entries (redis s)) k)"
proof -
  define ks where "ks = filter (\<lambda>k. live (now s) (redis s) k \<noteq> None \<and> glob (p @ ''*'') k)
                          (remdups (map fst (entries (redis s))))"
  have keys: "redis_keys (now s) (p @ ''*'') (redis s) = Inr ks"
    using assms(2) by (simp add: redis_keys_def ks_def)
  have in_ks: "k \<in> set ks \<longleftrightarrow> live (now s) (redis s) k \<noteq> None \<and> prefix p k" for k
    using live_in_keys [of "now s" "redis s" k] glob_literal_prefix [OF assms(1)]
    by (auto simp: ks_def)
  show ?thesis
  proof (cases "ks = []")
    case True
    then have inv: "invalidate (p @ ''*'') s = Inr s"
      by (simp add: invalidate_def keys)
    have "live t (redis s) k = None" if "prefix p k" "now s \<le> t" for k t
    proof -
      from True in_ks [of k] that(1) have "live (now s) (redis s) k = None" by simp
      then show ?thesis using that(2) by (rule live_expired_stays)
    qed
    with inv assms(2) show ?thesis by simp
  next
    case False
    define r' where "r' = (redis s)\<lparr>entries := filter (\<lambda>e. fst e \<notin> set ks) (entries (redis s))\<rparr>"
    from False have inv: "invalidate (p @ ''*'') s = Inr (s\<lparr>redis := r'\<rparr>)"
      using assms(2) by (simp add: invalidate_def keys redis_del_def r'_def)
    have lookup: "map_of (entries r') k = (if k \<notin> set ks then map_of (entries (redis s)) k else None)"
      for k
      by (simp add: r'_def map_of_filter_fst [of "\<lambda>k. k \<notin> set ks" "entries (redis s)" k])
    have gone: "live t r' k = None" if "prefix p k" "now s \<le> t" for k t
    proof (cases "k \<in> set ks")
      case True
      then show ?thesis by (simp add: live_def lookup)
    next
      case False
      with in_ks [of k] that(1) have "live (now s) (redis s) k = None" by simp
      then have "live t (redis s) k = None" using that(2) by (rule live_expired_stays)
      with False show ?thesis by (simp add: live_def lookup)
    qed
    have kept: "map_of (entries r') k = map_of (entries (redis s)) k" if "\<not> prefix p k" for k
      using that in_ks [of k] by (simp add: lookup)
    have up: "unavailable r' = None"
      using assms(2) by (simp add: r'_def)
    from inv gone kept up show ?thesis by simp
  qed
qed

theorem invalidate_prefix_exact_witness:
  "literal ''users:'' \<and> unavailable (redis state0) = None
   \<and> invalidate (''users:'' @ ''*'') state0
       = Inr (state0\<lparr>redis := \<lparr>entries = [(''products:all:0:max:1:20'', ''[]'', 301000),
                                             (''users:2:10'', ''[]'', 500)],
                                   unavailable = None\<rparr>\<rparr>)
   \<and> (\<exists>s'. invalidate (''users:'' @ ''*'') state0 = Inr s'
           \<and> (\<forall>k. prefix ''users:'' k \<longrightarrow> (\<forall>t \<ge> now state0. live t (redis s') k = None))
           \<and> (\<forall>k. \<not> prefix ''users:'' k
                 \<longrightarrow> map_of (entries (redis s')) k = map_of (entries (redis state0)) k))"
proof -
  have lit: "literal ''users:''"
    by (simp add: literal_def)
  have up: "unavailable (redis state0) = None"
    by (simp add: state0_def)
  have run: "invalidate (''users:'' @ ''*'') state0
       = Inr (state0\<lparr>redis := \<lparr>entries = [(''products:all:0:max:1:20'', ''[]'', 301000),
                                             (''users:2:10'', ''[]'', 500)],
                                   unavailable = None\<rparr>\<rparr>)"
    by (simp add: invalidate_def redis_keys_def redis_del_def live_def state0_def)
  from invalidate_prefix_exact [OF lit up] lit up run show ?thesis
    by blast
qed

section \<open>Cache keys\<close>

text \<open>
  Claim C6 fails on the code in both directions. The keys of the product and order lists put
  the words \<open>all\<close>, \<open>0\<close> and \<open>max\<close> in the place of a missing filter and take \<open>page\<close> and
  \<open>limit\<close> as they were typed. So the request without a category and the request for the
  category named \<open>all\<close> have the same key and different database queries (likewise for the
  order status), and the second is answered from the entry of the first without any query;
  while \<open>page=01\<close> and no page at all ask the database the same thing under different keys.
\<close>

theorem cacheKey_collides_and_splits:
  "products_cacheKey request0 = products_cacheKey request_category_all
   \<and> products_query request0 \<noteq> products_query request_category_all
   \<and> orders_cacheKey request0 = orders_cacheKey request_status_all
   \<and> orders_query request0 \<noteq> orders_query request_status_all
   \<and> fst (handle_read JSON_parse0 RegExp_error0 GetProducts request_category_all state0)
       = Json 200 (JArr [])
   \<and> db_log (snd (handle_read JSON_parse0 RegExp_error0 GetProducts request_category_all state0)) = []
   \<and> products_cacheKey request_page01 \<noteq> products_cacheKey request0
   \<and> products_query request_page01 = products_query request0
   \<and> skip_of (param_default (query request_page01 ''page'') ''1'')
              (param_default (query request_page01 ''limit'') ''20'')
       = skip_of (param_default (query request0 ''page'') ''1'')
              (param_default (query request0 ''limit'') ''20'')"
proof -
  have k: "products_cacheKey request0 = ''products:all:0:max:1:20''"
      "products_cacheKey request_category_all = ''products:all:0:max:1:20''"
      "products_cacheKey request_page01 = ''products:all:0:max:01:20''"
    by (simp_all add: products_cacheKey_def request0_def request_category_all_def
        request_page01_def str_or_def param_default_def)
  have ko: "orders_cacheKey request0 = orders_cacheKey request_status_all"
    by (simp add: orders_cacheKey_def request0_def request_status_all_def str_or_def
        param_default_def)
  have q: "q_category (products_query request0) = None"
      "q_category (products_query request_category_all) = Some ''all''"
      "products_query request_page01 = products_query request0"
    by (simp_all add: products_query_def request0_def request_category_all_def
        request_page01_def truthy_text_def truthy_def Let_def)
  have qo: "q_status (orders_query request0) = None"
      "q_status (orders_query request_status_all) = Some ''all''"
    by (simp_all add: orders_query_def request0_def request_status_all_def
        truthy_text_def truthy_def)
  from q have dq: "products_query request0 \<noteq> products_query request_category_all"
    by (metis option.distinct(1))
  from qo have dqo: "orders_query request0 \<noteq> orders_query request_status_all"
    by (metis option.distinct(1))
  have up: "unavailable (redis state0) = None"
    and cached: "live (now state0) (redis state0) (products_cacheKey request_category_all) = Some ''[]''"
    and l0: "db_log state0 = []"
    by (simp_all add: k state0_def live_def)
  have "handle_read JSON_parse0 RegExp_error0 GetProducts request_category_all state0
          = reply_from_cache JSON_parse0 ''[]'' state0"
    using products_list_hit [OF up cached] by simp
  then have served: "fst (handle_read JSON_parse0 RegExp_error0 GetProducts request_category_all state0)
       = Json 200 (JArr [])"
      "db_log (snd (handle_read JSON_parse0 RegExp_error0 GetProducts request_category_all state0)) = []"
    by (simp_all add: reply_from_cache_eq JSON_parse0_def l0)
  have skip: "skip_of (param_default (query request_page01 ''page'') ''1'')
              (param_default (query request_page01 ''limit'') ''20'')
       = skip_of (param_default (query request0 ''page'') ''1'')
              (param_default (query request0 ''limit'') ''20'')"
    by (simp add: skip_of_def param_default_def request_page01_def request0_def parseInt_def
        is_space_def in_radix_def digit_of_def digits_value_def Let_def)
  from k ko dq dqo served q(3) skip show ?thesis by simp
qed

section \<open>The bottleneck scenarios\<close>

lemma spin_done: "\<not> t - start < duration \<Longrightarrow> spin cost start duration t = t"
  by simp

lemma spin_bounds:
  "t - start < duration \<Longrightarrow>
     start + duration \<le> spin cost start duration t
     \<and> spin cost start duration t < start + duration + int (max 1 cost)"
proof (induction cost start duration t rule: spin.induct)
  case (1 cost start duration t)
  show ?case
  proof (cases "t + int (max 1 cost) - start < duration")
    case True
    with 1 show ?thesis by (simp del: spin.simps add: spin.simps [of cost start duration t])
  next
    case False
    have "spin cost start duration t = t + int (max 1 cost)"
      using "1.prems" False spin_done [of "t + int (max 1 cost)" start duration cost]
      by (simp del: spin.simps add: spin.simps [of cost start duration t])
    with "1.prems" False show ?thesis by simp
  qed
qed

lemma spin_millisecond:
  "0 \<le> duration \<Longrightarrow> spin 0 start duration start = start + duration"
proof (cases "0 < duration")
  case True
  then have "start - start < duration" by simp
  from spin_bounds [OF this, of 0] show ?thesis by simp
next
  case False
  assume "0 \<le> duration"
  with False have "duration = 0" by simp
  then show ?thesis by simp
qed


text \<open>
  Claim C3 fails on the code at names that \<open>scenarios\<close> inherits from \<open>Object.prototype\<close>:
  \<open>scenarios['__proto__']\<close> is an object, so the guard lets it through and the call throws
  a \<open>TypeError\<close>; \<open>__defineGetter__\<close> is a function that throws when called without a
  getter. Neither is a registered scenario. A name that is no property at all, such as
  \<open>nonexistent\<close>, returns without any effect.
\<close>

theorem createBottleneck_throws_on_inherited_property:
  "map_of scenarios ''__proto__'' = None
   \<and> createBottleneck ''__proto__'' process0
       = (Inl (Error ''scenarios[scenario] is not a function''), process0)
   \<and> map_of scenarios ''__defineGetter__'' = None
   \<and> createBottleneck ''__defineGetter__'' process0
       = (Inl (Error ''Object.prototype.__defineGetter__: Expecting function''), process0)
   \<and> createBottleneck ''nonexistent'' process0 = (Inr (), process0)"
  by (simp add: createBottleneck_def scenarios_def Object_prototype_def)

text \<open>
  Claim C4, as stated, fails: \<open>createBottleneck\<close> takes the scenario's name and nothing else,
  and calls the scenario without argument. Asked for \<open>slowIO\<close> by a caller who wants 100 ms,
  it waits the default 2000 ms, which is not what \<open>slowIO(100)\<close> does.
\<close>

theorem createBottleneck_has_no_knob:
  "createBottleneck ''slowIO'' process0 = (Inr (), process0\<lparr>clock := 2000\<rparr>)
   \<and> slowIO (Some 100) process0 = (Inr (), process0\<lparr>clock := 100\<rparr>)
   \<and> createBottleneck ''slowIO'' process0 \<noteq> slowIO (Some 100) process0"
proof -
  have a: "createBottleneck ''slowIO'' process0 = (Inr (), process0\<lparr>clock := 2000\<rparr>)"
    by (simp add: createBottleneck_def scenarios_def slowIO_def arg_default_def process0_def)
  have b: "slowIO (Some 100) process0 = (Inr (), process0\<lparr>clock := 100\<rparr>)"
    by (simp add: slowIO_def arg_default_def process0_def)
  have "clock (process0\<lparr>clock := 2000\<rparr>) \<noteq> clock (process0\<lparr>clock := 100\<rparr>)"
    by simp
  then have "process0\<lparr>clock := 2000\<rparr> \<noteq> process0\<lparr>clock := 100\<rparr>"
    by metis
  with a b show ?thesis by simp
qed

text \<open>
  Claim C4, amended. For every registered scenario, \<open>createBottleneck\<close> runs it with its
  built-in default: \<open>cpuIntensive\<close> keeps computing until 1000 ms have passed, ending within
  one \<open>pbkdf2Sync\<close> call of that; \<open>memoryIntensive\<close> allocates the array of a 50 MB request
  (6553600 elements) and waits 100 ms; \<open>blockEventLoop\<close> busy-waits 500 ms; \<open>slowIO\<close>
  waits 2000 ms; \<open>dbConnectionLeak\<close>, which has no knob, opens one more connection when the
  connection succeeds. The outcome depends on the name and the process only.
\<close>

theorem createBottleneck_runs_with_default_knob:
  "(\<exists>t. createBottleneck ''cpuIntensive'' p = (Inr (), p\<lparr>clock := t\<rparr>)
        \<and> clock p + 1000 \<le> t \<and> t < clock p + 1000 + int (max 1 (pbkdf2_ms p)))
   \<and> createBottleneck ''memoryIntensive'' p
       = (Inr (), p\<lparr>clock := clock p + 100, allocations := allocations p @ [6553600]\<rparr>)
   \<and> createBottleneck ''blockEventLoop'' p = (Inr (), p\<lparr>clock := clock p + 500\<rparr>)
   \<and> createBottleneck ''slowIO'' p = (Inr (), p\<lparr>clock := clock p + 2000\<rparr>)
   \<and> (connect_error p = None \<longrightarrow>
        createBottleneck ''dbConnectionLeak'' p
          = (Inr (), p\<lparr>connections := connections p
                @ [str_or (MONGODB_URI p) ''mongodb://localhost:27017/perflab'']\<rparr>))"
  (is "?cpu \<and> ?memory \<and> ?block \<and> ?slow \<and> ?leak")
proof -
  have "clock p - clock p < 1000" by simp
  note bounds = spin_bounds [OF this, of "pbkdf2_ms p"]
  have "createBottleneck ''cpuIntensive'' p
          = (Inr (), p\<lparr>clock := spin (pbkdf2_ms p) (clock p) 1000 (clock p)\<rparr>)"
    by (simp add: createBottleneck_def scenarios_def cpuIntensive_def arg_default_def Let_def
        del: spin.simps)
  with bounds have cpu: ?cpu
    by (intro exI [of _ "spin (pbkdf2_ms p) (clock p) 1000 (clock p)"]) (simp del: spin.simps)
  have memory: ?memory
    by (simp add: createBottleneck_def scenarios_def memoryIntensive_def arg_default_def)
  have block: ?block
    using spin_millisecond [of 500 "clock p"]
    by (simp add: createBottleneck_def scenarios_def blockEventLoop_def arg_default_def Let_def
        del: spin.simps)
  have slow: ?slow
    by (simp add: createBottleneck_def scenarios_def slowIO_def arg_default_def)
  have leak: ?leak
    by (simp add: createBottleneck_def scenarios_def dbConnectionLeak_def)
  show ?thesis
    by (rule conjI [OF cpu conjI [OF memory conjI [OF block conjI [OF slow leak]]]])
qed

theorem createBottleneck_runs_with_default_knob_witness:
  "connect_error process0 = None
   \<and> createBottleneck ''blockEventLoop'' process0 = (Inr (), process0\<lparr>clock := 500\<rparr>)
   \<and> createBottleneck ''slowIO'' process0 = (Inr (), process0\<lparr>clock := 2000\<rparr>)
   \<and> createBottleneck ''dbConnectionLeak'' process0
       = (Inr (), process0\<lparr>connections := [''mongodb://localhost:27017/perflab'']\<rparr>)"
proof -
  have ok: "connect_error process0 = None" and c0: "clock process0 = 0"
    and n0: "connections process0 = []" and u0: "MONGODB_URI process0 = None"
    by (simp_all add: process0_def)
  note t = createBottleneck_runs_with_default_knob [of process0]
  from t have block: "createBottleneck ''blockEventLoop'' process0 = (Inr (), process0\<lparr>clock := 500\<rparr>)"
    by (simp add: c0)
  from t have slow: "createBottleneck ''slowIO'' process0 = (Inr (), process0\<lparr>clock := 2000\<rparr>)"
    by (simp add: c0)
  from t ok have leak: "createBottleneck ''dbConnectionLeak'' process0
       = (Inr (), process0\<lparr>connections := [''mongodb://localhost:27017/perflab'']\<rparr>)"
    by (simp add: n0 u0 str_or_def)
  from ok block slow leak show ?thesis by simp
qed

section \<open>The histograms\<close>

lemma buckets_strictly_increasing:
  "sorted_wrt (<) httpDuration_buckets \<and> sorted_wrt (<) dbQueryDuration_buckets"
  by (simp add: httpDuration_buckets_def dbQueryDuration_buckets_def)

lemma observe_series_length:
  "length (bucket_counts s) = length bounds
   \<Longrightarrow> length (bucket_counts (observe_series bounds v s)) = length bounds"
  by (simp add: observe_series_def)

lemma observe_series_nth:
  "length (bucket_counts s) = length bounds \<Longrightarrow> i < length bounds
   \<Longrightarrow> bucket_counts (observe_series bounds v s) ! i
       = bucket_counts s ! i + (if v \<le> bounds ! i then 1 else 0)"
  by (simp add: observe_series_def)

lemma cumulative_new_series: "cumulative bounds (new_series bounds)"
  by (simp add: cumulative_def new_series_def)

lemma cumulative_observe_series:
  assumes "cumulative bounds s"
  shows "cumulative bounds (observe_series bounds v s)"
proof -
  from assms have len: "length (bucket_counts s) = length bounds"
    by (simp add: cumulative_def)
  have mono: "bucket_counts (observe_series bounds v s) ! i
                \<le> bucket_counts (observe_series bounds v s) ! j"
    if "i < length bounds" "j < length bounds" "bounds ! i \<le> bounds ! j" for i j
  proof -
    from assms that have "bucket_counts s ! i \<le> bucket_counts s ! j"
      by (simp add: cumulative_def)
    with that show ?thesis
      by (auto simp: observe_series_nth [OF len])
  qed
  have le_count: "bucket_counts (observe_series bounds v s) ! i
                    \<le> sample_count (observe_series bounds v s)"
    if "i < length bounds" for i
  proof -
    from assms that have "bucket_counts s ! i \<le> sample_count s"
      by (simp add: cumulative_def)
    moreover have "sample_count (observe_series bounds v s) = sample_count s + 1"
      by (simp add: observe_series_def)
    ultimately show ?thesis using that
      by (simp add: observe_series_nth [OF len])
  qed
  show ?thesis
    unfolding cumulative_def
    using observe_series_length [OF len] mono le_count by blast
qed

lemma observe_upperBounds: "upperBounds (observe labels v h) = upperBounds h"
  by (simp add: observe_def)

lemma observe_all_snoc:
  "observe_all (samples @ [(labels, v)]) h = observe labels v (observe_all samples h)"
  by (simp add: observe_all_def)

lemma observe_all_invariant:
  "upperBounds (observe_all samples (Histogram bs)) = bs
   \<and> (\<forall>labels. cumulative bs (series_of (observe_all samples (Histogram bs)) labels))"
proof (induction samples rule: rev_induct)
  case Nil
  show ?case
    by (simp add: observe_all_def Histogram_def cumulative_new_series)
next
  case (snoc x samples)
  obtain labels v where x: "x = (labels, v)" by (cases x)
  from snoc show ?case
    unfolding x observe_all_snoc
    by (simp add: observe_def cumulative_observe_series)
qed


lemma on_finish_observes:
  "httpDuration (on_finish start finish method route statusCode m)
     = observe [method, route, show_nat statusCode] (of_int (finish - start) / 1000) (httpDuration m)"
  by (simp add: on_finish_def Let_def)

text \<open>
  Claim C7. Both histograms registered in metrics.js declare strictly increasing boundaries.
  In any state \<open>h\<close> that such a histogram reaches from its creation by a list of
  observations, one more observation of \<open>v\<close> under \<open>labels\<close> adds one to the counter of
  every boundary that is at least \<open>v\<close> and to no other counter of that series, adds \<open>v\<close>
  to its sum and one to its count, and leaves the series of other labels alone; no counter
  of any series decreases; and in \<open>h\<close> the counter of a boundary is at least the counter of
  every boundary that is not larger.
\<close>

theorem histogram_observations_monotonic:
  assumes registered: "bs = httpDuration_buckets \<or> bs = dbQueryDuration_buckets"
    and reached: "h = observe_all samples (Histogram bs)"
  shows "sorted_wrt (<) bs
    \<and> (\<forall>i<length bs.
          bucket_counts (series_of (observe labels v h) labels) ! i
            = bucket_counts (series_of h labels) ! i + (if v \<le> bs ! i then 1 else 0))
    \<and> sample_sum (series_of (observe labels v h) labels) = sample_sum (series_of h labels) + v
    \<and> sample_count (series_of (observe labels v h) labels) = sample_count (series_of h labels) + 1
    \<and> (\<forall>l. l \<noteq> labels \<longrightarrow> series_of (observe labels v h) l = series_of h l)
    \<and> (\<forall>l. \<forall>i<length bs.
          bucket_counts (series_of h l) ! i \<le> bucket_counts (series_of (observe labels v h) l) ! i)
    \<and> (\<forall>l. \<forall>i<length bs. \<forall>j<length bs. bs ! i \<le> bs ! j
          \<longrightarrow> bucket_counts (series_of h l) ! i \<le> bucket_counts (series_of h l) ! j)"
proof -
  have inv: "upperBounds h = bs" "\<And>l. cumulative bs (series_of h l)"
    using observe_all_invariant [of samples bs] reached by simp_all
  have len: "length (bucket_counts (series_of h l)) = length bs" for l
    using inv(2) [of l] by (simp add: cumulative_def)
  have increasing: "sorted_wrt (<) bs"
    using registered buckets_strictly_increasing by blast
  have step: "bucket_counts (series_of (observe labels v h) labels) ! i
                = bucket_counts (series_of h labels) ! i + (if v \<le> bs ! i then 1 else 0)"
    if "i < length bs" for i
    using that by (simp add: observe_def inv(1) observe_series_nth [OF len])
  have sum: "sample_sum (series_of (observe labels v h) labels) = sample_sum (series_of h labels) + v"
    by (simp add: observe_def observe_series_def)
  have count: "sample_count (series_of (observe labels v h) labels)
                 = sample_count (series_of h labels) + 1"
    by (simp add: observe_def observe_series_def)
  have frame: "series_of (observe labels v h) l = series_of h l" if "l \<noteq> labels" for l
    using that by (simp add: observe_def)
  have grows: "bucket_counts (series_of h l) ! i
                 \<le> bucket_counts (series_of (observe labels v h) l) ! i"
    if "i < length bs" for l i
  proof (cases "l = labels")
    case True
    with step [OF that] show ?thesis by simp
  next
    case False
    with frame show ?thesis by simp
  qed
  have ordered: "bucket_counts (series_of h l) ! i \<le> bucket_counts (series_of h l) ! j"
    if "i < length bs" "j < length bs" "bs ! i \<le> bs ! j" for l i j
    using inv(2) [of l] that by (simp add: cumulative_def)
  from increasing step sum count frame grows ordered show ?thesis by blast
qed

theorem histogram_observations_monotonic_witness:
  "(httpDuration_buckets = httpDuration_buckets \<or> httpDuration_buckets = dbQueryDuration_buckets)
   \<and> httpDuration http_metrics_init = observe_all [] (Histogram httpDuration_buckets)
   \<and> sorted_wrt (<) httpDuration_buckets
   \<and> bucket_counts (series_of
         (httpDuration (on_finish 1000 1250 ''GET'' ''/'' 200 http_metrics_init))
         [''GET'', ''/'', ''200'']) ! 1
       = bucket_counts (series_of (httpDuration http_metrics_init) [''GET'', ''/'', ''200'']) ! 1 + 1
   \<and> bucket_counts (series_of
         (httpDuration (on_finish 1000 1250 ''GET'' ''/'' 200 http_metrics_init))
         [''GET'', ''/'', ''200'']) = [0, 1, 1, 1, 1, 1, 1, 1, 1]
   \<and> (dbQueryDuration_buckets = httpDuration_buckets \<or> dbQueryDuration_buckets = dbQueryDuration_buckets)
   \<and> dbQueryDuration_histogram state1
       = observe_all [([''find'', ''users''], 17 / 1000)] (Histogram dbQueryDuration_buckets)
   \<and> bucket_counts (series_of
         (observe [''find'', ''users''] (3 / 10) (dbQueryDuration_histogram state1))
         [''find'', ''users'']) = [0, 0, 0, 1, 1, 2, 2, 2, 2]
   \<and> bucket_counts (series_of (dbQueryDuration_histogram state1) [''find'', ''users'']) ! 4
       \<le> bucket_counts (series_of
             (observe [''find'', ''users''] (3 / 10) (dbQueryDuration_histogram state1))
             [''find'', ''users'']) ! 4"
proof -
  have r1: "httpDuration_buckets = httpDuration_buckets \<or> httpDuration_buckets = dbQueryDuration_buckets"
    by simp
  have h1: "httpDuration http_metrics_init = observe_all [] (Histogram httpDuration_buckets)"
    by (simp add: http_metrics_init_def observe_all_def)
  note t1 = histogram_observations_monotonic [OF r1 h1,
      where labels = "[''GET'', ''/'', ''200'']" and v = "1 / 4"]
  have after: "httpDuration (on_finish 1000 1250 ''GET'' ''/'' 200 http_metrics_init)
                 = observe [''GET'', ''/'', ''200''] (1 / 4) (httpDuration http_metrics_init)"
    by (simp add: on_finish_observes digit_char_def)
  have one: "1 < length httpDuration_buckets \<and> (1 / 4 :: rat) \<le> httpDuration_buckets ! 1"
    by (simp add: httpDuration_buckets_def)
  from t1 have a: "sorted_wrt (<) httpDuration_buckets"
    by blast
  from t1 one have b: "bucket_counts (series_of
         (httpDuration (on_finish 1000 1250 ''GET'' ''/'' 200 http_metrics_init))
         [''GET'', ''/'', ''200'']) ! 1
       = bucket_counts (series_of (httpDuration http_metrics_init) [''GET'', ''/'', ''200'']) ! 1 + 1"
    unfolding after by simp
  have c: "bucket_counts (series_of
         (httpDuration (on_finish 1000 1250 ''GET'' ''/'' 200 http_metrics_init))
         [''GET'', ''/'', ''200'']) = [0, 1, 1, 1, 1, 1, 1, 1, 1]"
    unfolding after
    by (simp add: http_metrics_init_def observe_def Histogram_def new_series_def
        observe_series_def httpDuration_buckets_def)
  have r2: "dbQueryDuration_buckets = httpDuration_buckets \<or> dbQueryDuration_buckets = dbQueryDuration_buckets"
    by simp
  have h2: "dbQueryDuration_histogram state1
       = observe_all [([''find'', ''users''], 17 / 1000)] (Histogram dbQueryDuration_buckets)"
    by (simp add: dbQueryDuration_histogram_def state1_def)
  note t2 = histogram_observations_monotonic [OF r2 h2,
      where labels = "[''find'', ''users'']" and v = "3 / 10"]
  have d: "bucket_counts (series_of
         (observe [''find'', ''users''] (3 / 10) (dbQueryDuration_histogram state1))
         [''find'', ''users'']) = [0, 0, 0, 1, 1, 2, 2, 2, 2]"
    unfolding h2
    by (simp add: observe_def observe_all_def Histogram_def new_series_def observe_series_def
        dbQueryDuration_buckets_def)
  have four: "4 < length dbQueryDuration_buckets"
    by (simp add: dbQueryDuration_buckets_def)
  from t2 four have e: "bucket_counts (series_of (dbQueryDuration_histogram state1) [''find'', ''users'']) ! 4
       \<le> bucket_counts (series_of
             (observe [''find'', ''users''] (3 / 10) (dbQueryDuration_histogram state1))
             [''find'', ''users'']) ! 4"
    by blast
  show ?thesis
    by (rule conjI [OF r1 conjI [OF h1 conjI [OF a conjI [OF b conjI [OF c
          conjI [OF r2 conjI [OF h2 conjI [OF d e]]]]]]]])
qed

end
